theory Spec2Isabelle
  imports Main "HOL-Library.Word"
begin

unbundle bit_operations_syntax

section \<open>Python values, bytes and exceptions\<close>

text \<open>
  The codec of \<^verbatim>\<open>src/opcua_uadp.py\<close> is dynamically typed: every encoder takes
  whatever Python object it is handed. The values are modelled by \<open>pyval\<close>.
  \<^item> A \<open>str\<close> is held as the bytes of its UTF-8 form (the source only ever calls
    \<^verbatim>\<open>.encode('utf-8')\<close> and \<open>str()\<close> on strings, never \<open>len\<close> or indexing).
  \<^item> A \<open>float\<close> is held as its IEEE-754 binary32 bit pattern, the float of the
    MicroPython build for the ESP32 the module is written for (its type inference maps
    every float to the 32-bit wire type).
  \<^item> \<open>PObj t s\<close> is any other object (a list, a dict, a tuple): the codec can only
    observe its truth value \<open>t\<close> and its \<open>str()\<close>, \<open>s\<close>.
  An exception is a value of \<open>error\<close>; a function that can raise returns
  \<open>error + 'a\<close>, \<open>Inl\<close> for the exception.
\<close>

type_synonym byte = "8 word"

datatype pyval =
    PNone
  | PBool bool
  | PInt int
  | PFloat "32 word"
  | PStr string
  | PBytes "byte list"
  | PObj bool string

datatype error =
    StructError
  | TypeError
  | ValueError
  | IndexError
  | AttributeError
  | UnicodeError
  | OverflowError

definition and_then :: "error + 'a \<Rightarrow> ('a \<Rightarrow> error + 'b) \<Rightarrow> error + 'b" where
  "and_then r f = (case r of Inl e \<Rightarrow> Inl e | Inr x \<Rightarrow> f x)"

text \<open>
  What the interpreter supplies and the repository does not define: the clock
  (\<open>None\<close> when \<^verbatim>\<open>time.time()\<close> raises), \<open>str()\<close> of a float and of a bytes object,
  and \<open>int()\<close> of a string or bytes object (\<open>None\<close> when it raises ValueError).
\<close>

record runtime =
  time_time :: "int option"
  float_str :: "32 word \<Rightarrow> string"
  bytes_str :: "byte list \<Rightarrow> string"
  int_parse :: "byte list \<Rightarrow> int option"

subsection \<open>Little-endian integers\<close>

fun le_bytes :: "nat \<Rightarrow> nat \<Rightarrow> byte list" where
  "le_bytes 0 n = []"
| "le_bytes (Suc k) n = of_nat n # le_bytes k (n div 256)"

fun le_nat :: "byte list \<Rightarrow> nat" where
  "le_nat [] = 0"
| "le_nat (b # bs) = unat b + 256 * le_nat bs"

subsection \<open>IEEE-754 binary floats\<close>

text \<open>
  A float format has \<open>E\<close> exponent bits and \<open>M\<close> fraction bits (8 and 23 for binary32,
  11 and 52 for binary64). \<open>float_decode\<close> reads a bit pattern as a sign, a significand
  and an exponent (the number \<open>\<plusminus> sig * 2 ^ ex\<close>); \<open>float_encode\<close> rounds such a
  number to the nearest one of the format, ties to even, overflowing to infinity.
  NaN payloads are not kept: every NaN converts to the quiet NaN.
\<close>

datatype fval = FNaN | FInf bool | FFin bool nat int

fun bit_length :: "nat \<Rightarrow> nat" where
  "bit_length n = (if n = 0 then 0 else Suc (bit_length (n div 2)))"

declare bit_length.simps [simp del]

definition float_decode :: "nat \<Rightarrow> nat \<Rightarrow> nat \<Rightarrow> fval" where
  "float_decode E M bits =
     (let s = ((bits div 2 ^ (E + M)) mod 2 = 1);
          ef = (bits div 2 ^ M) mod 2 ^ E;
          m = bits mod 2 ^ M;
          bias = (2 :: int) ^ (E - 1) - 1
      in if ef = 2 ^ E - 1 then (if m = 0 then FInf s else FNaN)
         else if ef = 0 then FFin s m (1 - bias - int M)
         else FFin s (2 ^ M + m) (int ef - bias - int M))"

definition round_shift :: "nat \<Rightarrow> int \<Rightarrow> nat" where
  "round_shift sig k =
     (if 0 \<le> k then sig * 2 ^ nat k
      else let d = nat (- k);
               q = sig div 2 ^ d;
               r = sig mod 2 ^ d;
               h = 2 ^ (d - 1)
           in if h < r \<or> (r = h \<and> odd q) then q + 1 else q)"

definition float_encode :: "nat \<Rightarrow> nat \<Rightarrow> fval \<Rightarrow> nat" where
  "float_encode E M v =
     (case v of
        FNaN \<Rightarrow> (2 ^ E - 1) * 2 ^ M + 2 ^ (M - 1)
      | FInf s \<Rightarrow> of_bool s * 2 ^ (E + M) + (2 ^ E - 1) * 2 ^ M
      | FFin s sig ex \<Rightarrow>
          (if sig = 0 then of_bool s * 2 ^ (E + M)
           else let bias = (2 :: int) ^ (E - 1) - 1;
                    e = ex + int (bit_length sig) - 1;
                    t = max e (1 - bias);
                    x = round_shift sig (ex - (t - int M));
                    body = nat (t + bias - 1) * 2 ^ M + x
                in of_bool s * 2 ^ (E + M) + min body ((2 ^ E - 1) * 2 ^ M)))"

definition f32_of :: "fval \<Rightarrow> 32 word" where
  "f32_of v = of_nat (float_encode 8 23 v)"

definition f32_val :: "32 word \<Rightarrow> fval" where
  "f32_val w = float_decode 8 23 (unat w)"

definition f32_to_f64 :: "32 word \<Rightarrow> nat" where
  "f32_to_f64 w = float_encode 11 52 (f32_val w)"

definition f64_to_f32 :: "nat \<Rightarrow> 32 word" where
  "f64_to_f32 n = f32_of (float_decode 11 52 n)"

subsection \<open>Conversions of the interpreter\<close>

text \<open>\<open>bool(x)\<close>, as in \<^verbatim>\<open>1 if value else 0\<close>.\<close>

fun truthy :: "pyval \<Rightarrow> bool" where
  "truthy PNone = False"
| "truthy (PBool b) = b"
| "truthy (PInt i) = (i \<noteq> 0)"
| "truthy (PFloat w) = (w AND 0x7FFFFFFF \<noteq> 0)"
| "truthy (PStr s) = (s \<noteq> [])"
| "truthy (PBytes b) = (b \<noteq> [])"
| "truthy (PObj t s) = t"

text \<open>The integer a struct integer format accepts: an int or a bool.\<close>

fun py_index :: "pyval \<Rightarrow> error + int" where
  "py_index (PBool b) = Inr (of_bool b)"
| "py_index (PInt i) = Inr i"
| "py_index v = Inl TypeError"

text \<open>The float a struct float format accepts: a float, or an int or bool converted.\<close>

fun py_float :: "pyval \<Rightarrow> error + 32 word" where
  "py_float (PFloat w) = Inr w"
| "py_float (PInt i) = Inr (f32_of (FFin (i < 0) (nat \<bar>i\<bar>) 0))"
| "py_float (PBool b) = Inr (f32_of (FFin False (of_bool b) 0))"
| "py_float v = Inl TypeError"

text \<open>\<open>int(x)\<close>: truncation of a float towards zero.\<close>

fun py_int :: "runtime \<Rightarrow> pyval \<Rightarrow> error + int" where
  "py_int rt (PInt i) = Inr i"
| "py_int rt (PBool b) = Inr (of_bool b)"
| "py_int rt (PFloat w) =
     (case f32_val w of
        FNaN \<Rightarrow> Inl ValueError
      | FInf s \<Rightarrow> Inl OverflowError
      | FFin s sig ex \<Rightarrow>
          Inr ((if s then - 1 else 1) *
               (if 0 \<le> ex then int sig * 2 ^ nat ex else int (sig div 2 ^ nat (- ex)))))"
| "py_int rt (PStr s) =
     (case int_parse rt (map of_char s) of None \<Rightarrow> Inl ValueError | Some i \<Rightarrow> Inr i)"
| "py_int rt (PBytes b) =
     (case int_parse rt b of None \<Rightarrow> Inl ValueError | Some i \<Rightarrow> Inr i)"
| "py_int rt v = Inl TypeError"

text \<open>\<open>str(x)\<close>.\<close>

function str_nat :: "nat \<Rightarrow> string" where
  "str_nat n =
     (if n < 10 then [char_of (48 + n)]
      else str_nat (n div 10) @ [char_of (48 + n mod 10)])"
  by pat_completeness auto
termination
  by (relation "measure id") auto

declare str_nat.simps [simp del]

definition str_int :: "int \<Rightarrow> string" where
  "str_int i = (if i < 0 then CHR ''-'' # str_nat (nat (- i)) else str_nat (nat i))"

fun py_str :: "runtime \<Rightarrow> pyval \<Rightarrow> string" where
  "py_str rt PNone = ''None''"
| "py_str rt (PBool b) = (if b then ''True'' else ''False'')"
| "py_str rt (PInt i) = str_int i"
| "py_str rt (PFloat w) = float_str rt w"
| "py_str rt (PStr s) = s"
| "py_str rt (PBytes b) = bytes_str rt b"
| "py_str rt (PObj t s) = s"

subsection \<open>\<^verbatim>\<open>ustruct.pack\<close> and \<^verbatim>\<open>ustruct.unpack_from\<close>\<close>

text \<open>
  The formats the source uses, all little-endian:
  \<^verbatim>\<open><B <b <H <h <I <i <Q <q\<close> (here \<open>U8 I8 U16 I16 U32 I32 U64 I64\<close>) and
  \<^verbatim>\<open><f <d\<close> (here \<open>F32 F64\<close>).
  An integer outside the format's range raises, as \<^verbatim>\<open>struct.pack\<close> does (MicroPython
  builds that truncate instead are not modelled: no theorem below packs such a value).
  A read that does not fit in the buffer raises.
\<close>

datatype ifmt = U8 | I8 | U16 | I16 | U32 | I32 | U64 | I64

datatype ffmt = F32 | F64

fun ifmt_size :: "ifmt \<Rightarrow> nat" where
  "ifmt_size U8 = 1" | "ifmt_size I8 = 1"
| "ifmt_size U16 = 2" | "ifmt_size I16 = 2"
| "ifmt_size U32 = 4" | "ifmt_size I32 = 4"
| "ifmt_size U64 = 8" | "ifmt_size I64 = 8"

fun ifmt_signed :: "ifmt \<Rightarrow> bool" where
  "ifmt_signed I8 = True" | "ifmt_signed I16 = True"
| "ifmt_signed I32 = True" | "ifmt_signed I64 = True"
| "ifmt_signed f = False"

definition ifmt_min :: "ifmt \<Rightarrow> int" where
  "ifmt_min f = (if ifmt_signed f then - (2 ^ (8 * ifmt_size f - 1)) else 0)"

definition ifmt_max :: "ifmt \<Rightarrow> int" where
  "ifmt_max f = (if ifmt_signed f then 2 ^ (8 * ifmt_size f - 1) - 1 else 2 ^ (8 * ifmt_size f) - 1)"

definition pack_int :: "ifmt \<Rightarrow> pyval \<Rightarrow> error + byte list" where
  "pack_int f v =
     and_then (py_index v) (\<lambda>i.
       if ifmt_min f \<le> i \<and> i \<le> ifmt_max f
       then Inr (le_bytes (ifmt_size f) (nat (i mod 2 ^ (8 * ifmt_size f))))
       else Inl StructError)"

definition unpack_int :: "ifmt \<Rightarrow> byte list \<Rightarrow> nat \<Rightarrow> error + int" where
  "unpack_int f data offset =
     (if offset + ifmt_size f \<le> length data
      then let n = le_nat (take (ifmt_size f) (drop offset data))
           in Inr (if ifmt_signed f \<and> 2 ^ (8 * ifmt_size f - 1) \<le> n
                   then int n - 2 ^ (8 * ifmt_size f) else int n)
      else Inl StructError)"

fun ffmt_size :: "ffmt \<Rightarrow> nat" where
  "ffmt_size F32 = 4" | "ffmt_size F64 = 8"

fun pack_float :: "ffmt \<Rightarrow> pyval \<Rightarrow> error + byte list" where
  "pack_float F32 v = and_then (py_float v) (\<lambda>w. Inr (le_bytes 4 (unat w)))"
| "pack_float F64 v = and_then (py_float v) (\<lambda>w. Inr (le_bytes 8 (f32_to_f64 w)))"

definition unpack_float :: "ffmt \<Rightarrow> byte list \<Rightarrow> nat \<Rightarrow> error + 32 word" where
  "unpack_float f data offset =
     (if offset + ffmt_size f \<le> length data
      then let n = le_nat (take (ffmt_size f) (drop offset data))
           in Inr (case f of F32 \<Rightarrow> of_nat n | F64 \<Rightarrow> f64_to_f32 n)
      else Inl StructError)"

text \<open>
  \<^verbatim>\<open>bytearray.append(x)\<close>: the byte appended, ValueError outside 0..255 (a MicroPython
  build that stores the low byte instead is not modelled).
\<close>

definition append_byte :: "int \<Rightarrow> error + byte list" where
  "append_byte x = (if 0 \<le> x \<and> x \<le> 255 then Inr [of_int x] else Inl ValueError)"

text \<open>\<^verbatim>\<open>data[i]\<close> on a bytes object: IndexError past the end.\<close>

definition byte_at :: "byte list \<Rightarrow> nat \<Rightarrow> error + int" where
  "byte_at data i = (if i < length data then Inr (uint (data ! i)) else Inl IndexError)"

text \<open>\<^verbatim>\<open>for x in xs: buffer.extend(f(x))\<close>: the bytes appended, or the first exception.\<close>

fun extend_all :: "('a \<Rightarrow> error + byte list) \<Rightarrow> 'a list \<Rightarrow> error + byte list" where
  "extend_all f [] = Inr []"
| "extend_all f (x # xs) =
     and_then (f x) (\<lambda>b. and_then (extend_all f xs) (\<lambda>rest. Inr (b @ rest)))"

text \<open>A list comprehension \<^verbatim>\<open>[f(x) for x in xs]\<close> whose body can raise.\<close>

fun map_result :: "('a \<Rightarrow> error + 'b) \<Rightarrow> 'a list \<Rightarrow> error + 'b list" where
  "map_result f [] = Inr []"
| "map_result f (x # xs) =
     and_then (f x) (\<lambda>y. and_then (map_result f xs) (\<lambda>ys. Inr (y # ys)))"

text \<open>
  \<^verbatim>\<open>bytes.decode('utf-8')\<close> raises on bytes that are not well-formed UTF-8
  (no overlong forms, no surrogates, nothing above U+10FFFF).
\<close>

definition cont :: "byte \<Rightarrow> bool" where
  "cont b = (0x80 \<le> b \<and> b \<le> 0xBF)"

fun utf8_valid :: "byte list \<Rightarrow> bool" where
  "utf8_valid [] = True"
| "utf8_valid (b # bs) =
     (if b \<le> 0x7F then utf8_valid bs
      else if 0xC2 \<le> b \<and> b \<le> 0xDF then
        (case bs of c1 # r \<Rightarrow> cont c1 \<and> utf8_valid r | _ \<Rightarrow> False)
      else if 0xE0 \<le> b \<and> b \<le> 0xEF then
        (case bs of
           c1 # c2 # r \<Rightarrow>
             (if b = 0xE0 then 0xA0 \<le> c1 \<and> c1 \<le> 0xBF
              else if b = 0xED then 0x80 \<le> c1 \<and> c1 \<le> 0x9F
              else cont c1) \<and> cont c2 \<and> utf8_valid r
         | _ \<Rightarrow> False)
      else if 0xF0 \<le> b \<and> b \<le> 0xF4 then
        (case bs of
           c1 # c2 # c3 # r \<Rightarrow>
             (if b = 0xF0 then 0x90 \<le> c1 \<and> c1 \<le> 0xBF
              else if b = 0xF4 then 0x80 \<le> c1 \<and> c1 \<le> 0x8F
              else cont c1) \<and> cont c2 \<and> cont c3 \<and> utf8_valid r
         | _ \<Rightarrow> False)
      else False)"

definition utf8_encode :: "string \<Rightarrow> byte list" where
  "utf8_encode s = map of_char s"

definition utf8_decode :: "byte list \<Rightarrow> error + string" where
  "utf8_decode bs =
     (if utf8_valid bs then Inr (map (\<lambda>b. char_of (unat b)) bs) else Inl UnicodeError)"

section \<open>Type identifiers and type inference\<close>

definition BOOLEAN :: int where "BOOLEAN = 1"
definition SBYTE :: int where "SBYTE = 2"
definition BYTE :: int where "BYTE = 3"
definition INT16 :: int where "INT16 = 4"
definition UINT16 :: int where "UINT16 = 5"
definition INT32 :: int where "INT32 = 6"
definition UINT32 :: int where "UINT32 = 7"
definition INT64 :: int where "INT64 = 8"
definition UINT64 :: int where "UINT64 = 9"
definition FLOAT :: int where "FLOAT = 10"
definition DOUBLE :: int where "DOUBLE = 11"
definition STRING :: int where "STRING = 12"
definition DATETIME :: int where "DATETIME = 13"
definition GUID :: int where "GUID = 14"
definition BYTESTRING :: int where "BYTESTRING = 15"

text \<open>\<^verbatim>\<open>OPCUATypes.from_python\<close>: the \<open>isinstance\<close> chain, bool before int.\<close>

fun from_python :: "pyval \<Rightarrow> int" where
  "from_python (PBool b) = BOOLEAN"
| "from_python (PInt v) =
     (if - 128 \<le> v \<and> v \<le> 127 then SBYTE
      else if - 32768 \<le> v \<and> v \<le> 32767 then INT16
      else if - 2147483648 \<le> v \<and> v \<le> 2147483647 then INT32
      else INT64)"
| "from_python (PFloat w) = FLOAT"
| "from_python (PStr s) = STRING"
| "from_python (PBytes b) = BYTESTRING"
| "from_python v = STRING"

section \<open>Scalar codec\<close>

subsection \<open>\<^verbatim>\<open>UADPEncoder\<close>\<close>

definition encode_boolean :: "pyval \<Rightarrow> error + byte list" where
  "encode_boolean v = pack_int U8 (PInt (if truthy v then 1 else 0))"

definition encode_sbyte :: "pyval \<Rightarrow> error + byte list" where
  "encode_sbyte v = pack_int I8 v"

definition encode_byte :: "pyval \<Rightarrow> error + byte list" where
  "encode_byte v = pack_int U8 v"

definition encode_int16 :: "pyval \<Rightarrow> error + byte list" where
  "encode_int16 v = pack_int I16 v"

definition encode_uint16 :: "pyval \<Rightarrow> error + byte list" where
  "encode_uint16 v = pack_int U16 v"

definition encode_int32 :: "pyval \<Rightarrow> error + byte list" where
  "encode_int32 v = pack_int I32 v"

definition encode_uint32 :: "pyval \<Rightarrow> error + byte list" where
  "encode_uint32 v = pack_int U32 v"

definition encode_int64 :: "pyval \<Rightarrow> error + byte list" where
  "encode_int64 v = pack_int I64 v"

definition encode_uint64 :: "pyval \<Rightarrow> error + byte list" where
  "encode_uint64 v = pack_int U64 v"

definition encode_float :: "pyval \<Rightarrow> error + byte list" where
  "encode_float v = pack_float F32 v"

definition encode_double :: "pyval \<Rightarrow> error + byte list" where
  "encode_double v = pack_float F64 v"

text \<open>\<open>value.encode('utf-8')\<close> exists on a \<open>str\<close> only.\<close>

fun encode_string :: "pyval \<Rightarrow> error + byte list" where
  "encode_string PNone = pack_int I32 (PInt (- 1))"
| "encode_string (PStr s) =
     (let encoded = utf8_encode s
      in and_then (pack_int I32 (PInt (int (length encoded)))) (\<lambda>l. Inr (l @ encoded)))"
| "encode_string v = Inl AttributeError"

text \<open>
  The bare \<^verbatim>\<open>except:\<close> around the clock arithmetic turns a failing clock into
  \<open>filetime = 0\<close>.
\<close>

definition encode_datetime :: "runtime \<Rightarrow> pyval \<Rightarrow> error + byte list" where
  "encode_datetime rt timestamp =
     (let filetime =
            (if timestamp = PNone then
               (case time_time rt of
                  Some t \<Rightarrow> PInt (((t + 946684800) + 11644473600) * 10000000)
                | None \<Rightarrow> PInt 0)
             else timestamp)
      in and_then (py_int rt filetime) (\<lambda>i. pack_int U64 (PInt i)))"

text \<open>\<open>len(value)\<close> and \<open>bytes + value\<close> both need a bytes object.\<close>

fun encode_bytestring :: "pyval \<Rightarrow> error + byte list" where
  "encode_bytestring PNone = pack_int I32 (PInt (- 1))"
| "encode_bytestring (PBytes b) =
     and_then (pack_int I32 (PInt (int (length b)))) (\<lambda>l. Inr (l @ b))"
| "encode_bytestring v = Inl TypeError"

definition encode_status_code :: "int \<Rightarrow> error + byte list" where
  "encode_status_code code = pack_int U32 (PInt code)"

definition encoders :: "runtime \<Rightarrow> (int \<times> (pyval \<Rightarrow> error + byte list)) list" where
  "encoders rt =
     [(BOOLEAN, encode_boolean),
      (SBYTE, encode_sbyte),
      (BYTE, encode_byte),
      (INT16, encode_int16),
      (UINT16, encode_uint16),
      (INT32, encode_int32),
      (UINT32, encode_uint32),
      (INT64, encode_int64),
      (UINT64, encode_uint64),
      (FLOAT, encode_float),
      (DOUBLE, encode_double),
      (STRING, encode_string),
      (DATETIME, encode_datetime rt),
      (BYTESTRING, encode_bytestring)]"

definition encode_value :: "runtime \<Rightarrow> pyval \<Rightarrow> int option \<Rightarrow> error + byte list" where
  "encode_value rt v type_id =
     (let type_id = (case type_id of None \<Rightarrow> from_python v | Some t \<Rightarrow> t)
      in case map_of (encoders rt) type_id of
           Some encoder \<Rightarrow> encoder v
         | None \<Rightarrow> encode_string (PStr (py_str rt v)))"

subsection \<open>\<^verbatim>\<open>UADPDecoder\<close>\<close>

definition decode_boolean :: "byte list \<Rightarrow> nat \<Rightarrow> error + pyval \<times> nat" where
  "decode_boolean data offset =
     and_then (unpack_int U8 data offset) (\<lambda>v. Inr (PBool (v \<noteq> 0), offset + 1))"

definition decode_sbyte :: "byte list \<Rightarrow> nat \<Rightarrow> error + pyval \<times> nat" where
  "decode_sbyte data offset =
     and_then (unpack_int I8 data offset) (\<lambda>v. Inr (PInt v, offset + 1))"

definition decode_byte :: "byte list \<Rightarrow> nat \<Rightarrow> error + pyval \<times> nat" where
  "decode_byte data offset =
     and_then (unpack_int U8 data offset) (\<lambda>v. Inr (PInt v, offset + 1))"

definition decode_int16 :: "byte list \<Rightarrow> nat \<Rightarrow> error + pyval \<times> nat" where
  "decode_int16 data offset =
     and_then (unpack_int I16 data offset) (\<lambda>v. Inr (PInt v, offset + 2))"

definition decode_uint16 :: "byte list \<Rightarrow> nat \<Rightarrow> error + pyval \<times> nat" where
  "decode_uint16 data offset =
     and_then (unpack_int U16 data offset) (\<lambda>v. Inr (PInt v, offset + 2))"

definition decode_int32 :: "byte list \<Rightarrow> nat \<Rightarrow> error + pyval \<times> nat" where
  "decode_int32 data offset =
     and_then (unpack_int I32 data offset) (\<lambda>v. Inr (PInt v, offset + 4))"

definition decode_uint32 :: "byte list \<Rightarrow> nat \<Rightarrow> error + pyval \<times> nat" where
  "decode_uint32 data offset =
     and_then (unpack_int U32 data offset) (\<lambda>v. Inr (PInt v, offset + 4))"

definition decode_int64 :: "byte list \<Rightarrow> nat \<Rightarrow> error + pyval \<times> nat" where
  "decode_int64 data offset =
     and_then (unpack_int I64 data offset) (\<lambda>v. Inr (PInt v, offset + 8))"

definition decode_uint64 :: "byte list \<Rightarrow> nat \<Rightarrow> error + pyval \<times> nat" where
  "decode_uint64 data offset =
     and_then (unpack_int U64 data offset) (\<lambda>v. Inr (PInt v, offset + 8))"

definition decode_float :: "byte list \<Rightarrow> nat \<Rightarrow> error + pyval \<times> nat" where
  "decode_float data offset =
     and_then (unpack_float F32 data offset) (\<lambda>v. Inr (PFloat v, offset + 4))"

definition decode_double :: "byte list \<Rightarrow> nat \<Rightarrow> error + pyval \<times> nat" where
  "decode_double data offset =
     and_then (unpack_float F64 data offset) (\<lambda>v. Inr (PFloat v, offset + 8))"

text \<open>
  The slice \<^verbatim>\<open>data[offset:offset + length]\<close> never raises: past the end of the buffer
  it is cut short.
\<close>

definition decode_string :: "byte list \<Rightarrow> nat \<Rightarrow> error + pyval \<times> nat" where
  "decode_string data offset =
     and_then (unpack_int I32 data offset) (\<lambda>len.
       let offset = offset + 4
       in if len < 0 then Inr (PNone, offset)
          else and_then (utf8_decode (take (nat len) (drop offset data))) (\<lambda>v.
                 Inr (PStr v, offset + nat len)))"

definition decode_datetime :: "byte list \<Rightarrow> nat \<Rightarrow> error + pyval \<times> nat" where
  "decode_datetime data offset =
     and_then (unpack_int U64 data offset) (\<lambda>filetime. Inr (PInt filetime, offset + 8))"

definition decode_bytestring :: "byte list \<Rightarrow> nat \<Rightarrow> error + pyval \<times> nat" where
  "decode_bytestring data offset =
     and_then (unpack_int I32 data offset) (\<lambda>len.
       let offset = offset + 4
       in if len < 0 then Inr (PNone, offset)
          else Inr (PBytes (take (nat len) (drop offset data)), offset + nat len))"

definition decoders :: "(int \<times> (byte list \<Rightarrow> nat \<Rightarrow> error + pyval \<times> nat)) list" where
  "decoders =
     [(BOOLEAN, decode_boolean),
      (SBYTE, decode_sbyte),
      (BYTE, decode_byte),
      (INT16, decode_int16),
      (UINT16, decode_uint16),
      (INT32, decode_int32),
      (UINT32, decode_uint32),
      (INT64, decode_int64),
      (UINT64, decode_uint64),
      (FLOAT, decode_float),
      (DOUBLE, decode_double),
      (STRING, decode_string),
      (DATETIME, decode_datetime),
      (BYTESTRING, decode_bytestring)]"

definition decode_value :: "byte list \<Rightarrow> int \<Rightarrow> nat \<Rightarrow> error + pyval \<times> nat" where
  "decode_value data type_id offset =
     (case map_of decoders type_id of
        Some decoder \<Rightarrow> decoder data offset
      | None \<Rightarrow> Inl ValueError)"

section \<open>Status codes and message flags\<close>

definition GOOD :: int where "GOOD = 0x00000000"

definition VERSION :: int where "VERSION = 1"
definition VERSION_MASK :: int where "VERSION_MASK = 0x0F"
definition PUBLISHER_ID_ENABLED :: int where "PUBLISHER_ID_ENABLED = 0x10"
definition GROUP_HEADER_ENABLED :: int where "GROUP_HEADER_ENABLED = 0x20"
definition PAYLOAD_HEADER_ENABLED :: int where "PAYLOAD_HEADER_ENABLED = 0x40"

definition PUBLISHER_ID_BYTE :: int where "PUBLISHER_ID_BYTE = 0x00"
definition PUBLISHER_ID_UINT16 :: int where "PUBLISHER_ID_UINT16 = 0x01"
definition PUBLISHER_ID_UINT32 :: int where "PUBLISHER_ID_UINT32 = 0x02"
definition PUBLISHER_ID_STRING :: int where "PUBLISHER_ID_STRING = 0x04"

definition VALID :: int where "VALID = 0x01"
definition FIELD_ENCODING_RAWDATA :: int where "FIELD_ENCODING_RAWDATA = 0x01"
definition SEQUENCE_NUMBER_ENABLED :: int where "SEQUENCE_NUMBER_ENABLED = 0x08"

section \<open>\<^verbatim>\<open>UADPDataValue\<close>\<close>

record data_value =
  dv_value :: pyval
  dv_type_id :: int
  dv_status_code :: int
  dv_source_timestamp :: pyval

text \<open>The constructor: \<^verbatim>\<open>type_id or OPCUATypes.from_python(value)\<close>.\<close>

definition UADPDataValue :: "pyval \<Rightarrow> int option \<Rightarrow> int \<Rightarrow> pyval \<Rightarrow> data_value" where
  "UADPDataValue v type_id status_code source_timestamp =
     \<lparr>dv_value = v,
      dv_type_id = (case type_id of None \<Rightarrow> from_python v
                    | Some t \<Rightarrow> if t \<noteq> 0 then t else from_python v),
      dv_status_code = status_code,
      dv_source_timestamp = source_timestamp\<rparr>"

text \<open>The encoding mask of \<^verbatim>\<open>UADPDataValue.encode\<close>.\<close>

definition dv_mask :: "data_value \<Rightarrow> bool \<Rightarrow> bool \<Rightarrow> int" where
  "dv_mask self include_status include_timestamp =
     (let mask = 0x01;
          mask = (if include_status \<and> dv_status_code self \<noteq> GOOD then mask OR 0x02 else mask);
          mask = (if include_timestamp then mask OR 0x04 else mask)
      in mask)"

definition UADPDataValue_encode ::
  "runtime \<Rightarrow> data_value \<Rightarrow> bool \<Rightarrow> bool \<Rightarrow> error + byte list" where
  "UADPDataValue_encode rt self include_status include_timestamp =
     (let mask = dv_mask self include_status include_timestamp
      in and_then (append_byte mask) (\<lambda>b0.
         and_then (encode_value rt (dv_value self) (Some (dv_type_id self))) (\<lambda>b1.
         and_then (if mask AND 0x02 \<noteq> 0 then encode_status_code (dv_status_code self)
                   else Inr []) (\<lambda>b2.
         and_then (if mask AND 0x04 \<noteq> 0 then encode_datetime rt (dv_source_timestamp self)
                   else Inr []) (\<lambda>b3.
         Inr (b0 @ b1 @ b2 @ b3))))))"

section \<open>\<^verbatim>\<open>UADPDataSetMessage\<close>\<close>

record dataset_message =
  ds_dataset_writer_id :: int
  ds_sequence_number :: int
  ds_fields :: "(string \<times> pyval \<times> int) list"
  ds_field_encoding :: int

definition UADPDataSetMessage :: "int \<Rightarrow> int \<Rightarrow> dataset_message" where
  "UADPDataSetMessage dataset_writer_id sequence_number =
     \<lparr>ds_dataset_writer_id = dataset_writer_id,
      ds_sequence_number = sequence_number,
      ds_fields = [],
      ds_field_encoding = FIELD_ENCODING_RAWDATA\<rparr>"

definition add_field :: "dataset_message \<Rightarrow> string \<Rightarrow> pyval \<Rightarrow> int option \<Rightarrow> dataset_message" where
  "add_field self name v type_id =
     (let type_id = (case type_id of None \<Rightarrow> from_python v | Some t \<Rightarrow> t)
      in self\<lparr>ds_fields := ds_fields self @ [(name, v, type_id)]\<rparr>)"

definition UADPDataSetMessage_encode :: "runtime \<Rightarrow> dataset_message \<Rightarrow> error + byte list" where
  "UADPDataSetMessage_encode rt self =
     (let flags1 = VALID;
          flags1 = flags1 OR push_bit 1 (ds_field_encoding self);
          flags1 = flags1 OR SEQUENCE_NUMBER_ENABLED;
          flags2 = 0x00
      in and_then (append_byte flags1) (\<lambda>b0.
         and_then (append_byte flags2) (\<lambda>b1.
         and_then (pack_int U16 (PInt (ds_sequence_number self AND 0xFFFF))) (\<lambda>b2.
         and_then (extend_all (\<lambda>(name, v, type_id). encode_value rt v (Some type_id))
                     (ds_fields self)) (\<lambda>b3.
         Inr (b0 @ b1 @ b2 @ b3))))))"

section \<open>\<^verbatim>\<open>UADPNetworkMessage\<close>\<close>

record network_message =
  nm_publisher_id :: pyval
  nm_writer_group_id :: int
  nm_dataset_messages :: "dataset_message list"
  nm_sequence_number :: int
  nm_include_group_header :: bool
  nm_include_payload_header :: bool

definition UADPNetworkMessage :: "pyval \<Rightarrow> int \<Rightarrow> network_message" where
  "UADPNetworkMessage publisher_id writer_group_id =
     \<lparr>nm_publisher_id = publisher_id,
      nm_writer_group_id = writer_group_id,
      nm_dataset_messages = [],
      nm_sequence_number = 0,
      nm_include_group_header = True,
      nm_include_payload_header = True\<rparr>"

definition add_dataset_message :: "network_message \<Rightarrow> dataset_message \<Rightarrow> network_message" where
  "add_dataset_message self dataset_msg =
     self\<lparr>nm_dataset_messages := nm_dataset_messages self @ [dataset_msg]\<rparr>"

text \<open>
  \<^verbatim>\<open>encode\<close> fills one buffer in four numbered steps; each step is a function here
  that returns the bytes it appends.
\<close>

text \<open>Step 1, the flags byte.\<close>

definition nm_flags :: "network_message \<Rightarrow> int" where
  "nm_flags self =
     (let flags = VERSION AND VERSION_MASK;
          flags = flags OR PUBLISHER_ID_ENABLED;
          flags = (if nm_include_group_header self then flags OR GROUP_HEADER_ENABLED else flags);
          flags = (if nm_include_payload_header self then flags OR PAYLOAD_HEADER_ENABLED else flags)
      in flags)"

text \<open>
  Step 1, the publisher id: \<open>isinstance\<close> of \<open>str\<close>, then of \<open>int\<close> (a bool is an int);
  any other object appends nothing.
\<close>

fun encode_publisher_id :: "pyval \<Rightarrow> error + byte list" where
  "encode_publisher_id (PStr s) =
     and_then (append_byte PUBLISHER_ID_STRING) (\<lambda>t.
     and_then (encode_string (PStr s)) (\<lambda>b. Inr (t @ b)))"
| "encode_publisher_id (PInt i) =
     (if i \<le> 255 then
        and_then (append_byte PUBLISHER_ID_BYTE) (\<lambda>t.
        and_then (append_byte i) (\<lambda>b. Inr (t @ b)))
      else if i \<le> 65535 then
        and_then (append_byte PUBLISHER_ID_UINT16) (\<lambda>t.
        and_then (pack_int U16 (PInt i)) (\<lambda>b. Inr (t @ b)))
      else
        and_then (append_byte PUBLISHER_ID_UINT32) (\<lambda>t.
        and_then (pack_int U32 (PInt i)) (\<lambda>b. Inr (t @ b))))"
| "encode_publisher_id (PBool b) =
     and_then (append_byte PUBLISHER_ID_BYTE) (\<lambda>t.
     and_then (append_byte (of_bool b)) (\<lambda>b. Inr (t @ b)))"
| "encode_publisher_id v = Inr []"

text \<open>Step 2, the group header.\<close>

definition encode_group_header :: "network_message \<Rightarrow> error + byte list" where
  "encode_group_header self =
     (if nm_include_group_header self then
        (let group_flags = 0x03
         in and_then (append_byte group_flags) (\<lambda>b0.
            and_then (pack_int U16 (PInt (nm_writer_group_id self))) (\<lambda>b1.
            and_then (pack_int U32 (PInt 0)) (\<lambda>b2.
            and_then (pack_int U16 (PInt (nm_sequence_number self AND 0xFFFF))) (\<lambda>b3.
            Inr (b0 @ b1 @ b2 @ b3))))))
      else Inr [])"

text \<open>Step 3, the payload header.\<close>

definition encode_payload_header :: "network_message \<Rightarrow> error + byte list" where
  "encode_payload_header self =
     (if nm_include_payload_header self then
        and_then (append_byte (int (length (nm_dataset_messages self)))) (\<lambda>b0.
        and_then (extend_all (\<lambda>ds_msg. pack_int U16 (PInt (ds_dataset_writer_id ds_msg)))
                    (nm_dataset_messages self)) (\<lambda>b1.
        Inr (b0 @ b1)))
      else Inr [])"

text \<open>Step 4, the payload.\<close>

definition encode_payload :: "runtime \<Rightarrow> network_message \<Rightarrow> error + byte list" where
  "encode_payload rt self =
     (if 1 < length (nm_dataset_messages self) then
        and_then (map_result (UADPDataSetMessage_encode rt) (nm_dataset_messages self))
          (\<lambda>encoded_messages.
        and_then (extend_all (\<lambda>enc_msg. pack_int U16 (PInt (int (length enc_msg))))
                    encoded_messages) (\<lambda>sizes.
        and_then (extend_all Inr encoded_messages) (\<lambda>messages.
        Inr (sizes @ messages))))
      else extend_all (UADPDataSetMessage_encode rt) (nm_dataset_messages self))"

definition UADPNetworkMessage_encode :: "runtime \<Rightarrow> network_message \<Rightarrow> error + byte list" where
  "UADPNetworkMessage_encode rt self =
     and_then (append_byte (nm_flags self)) (\<lambda>b0.
     and_then (encode_publisher_id (nm_publisher_id self)) (\<lambda>b1.
     and_then (encode_group_header self) (\<lambda>b2.
     and_then (encode_payload_header self) (\<lambda>b3.
     and_then (encode_payload rt self) (\<lambda>b4.
     Inr (b0 @ b1 @ b2 @ b3 @ b4))))))"

text \<open>
  \<^verbatim>\<open>encode_minimal\<close>: a byte publisher id when it is an int (or bool) of at most 255,
  else the string form of \<open>str(publisher_id)\<close>, cut to 16 bytes.
\<close>

fun is_small_int :: "pyval \<Rightarrow> bool" where
  "is_small_int (PInt i) = (i \<le> 255)"
| "is_small_int (PBool b) = True"
| "is_small_int v = False"

definition minimal_publisher_id :: "runtime \<Rightarrow> pyval \<Rightarrow> error + byte list" where
  "minimal_publisher_id rt publisher_id =
     (if is_small_int publisher_id then
        and_then (append_byte PUBLISHER_ID_BYTE) (\<lambda>t.
        and_then (and_then (py_index publisher_id) append_byte) (\<lambda>b. Inr (t @ b)))
      else
        and_then (append_byte PUBLISHER_ID_STRING) (\<lambda>t.
        let pub_bytes = take 16 (utf8_encode (py_str rt publisher_id))
        in and_then (pack_int I32 (PInt (int (length pub_bytes)))) (\<lambda>l.
           Inr (t @ l @ pub_bytes))))"

definition minimal_body :: "runtime \<Rightarrow> network_message \<Rightarrow> error + byte list" where
  "minimal_body rt self =
     and_then (append_byte (int (length (nm_dataset_messages self)))) (\<lambda>b0.
     and_then (extend_all (UADPDataSetMessage_encode rt) (nm_dataset_messages self)) (\<lambda>b1.
     Inr (b0 @ b1)))"

definition UADPNetworkMessage_encode_minimal ::
  "runtime \<Rightarrow> network_message \<Rightarrow> error + byte list" where
  "UADPNetworkMessage_encode_minimal rt self =
     (let flags = VERSION OR PUBLISHER_ID_ENABLED
      in and_then (append_byte flags) (\<lambda>b0.
         and_then (minimal_publisher_id rt (nm_publisher_id self)) (\<lambda>b1.
         and_then (minimal_body rt self) (\<lambda>b2.
         Inr (b0 @ b1 @ b2)))))"

subsection \<open>\<^verbatim>\<open>UADPNetworkMessage.decode\<close>\<close>

text \<open>
  The object \<^verbatim>\<open>decode\<close> returns: the header fields it parsed and the three
  attributes it adds. \<open>Inr None\<close> is \<^verbatim>\<open>return None\<close>.
\<close>

record decoded_message =
  dm_publisher_id :: pyval
  dm_writer_group_id :: int
  dm_sequence_number :: int
  dm_raw_payload :: "byte list"
  dm_writer_ids :: "int list"
  dm_ds_count :: int

definition decode_publisher_id :: "byte list \<Rightarrow> nat \<Rightarrow> pyval \<Rightarrow> error + pyval \<times> nat" where
  "decode_publisher_id data offset publisher_id =
     and_then (byte_at data offset) (\<lambda>pub_type.
       let offset = offset + 1
       in if pub_type = PUBLISHER_ID_BYTE then
            and_then (byte_at data offset) (\<lambda>v. Inr (PInt v, offset + 1))
          else if pub_type = PUBLISHER_ID_UINT16 then
            and_then (unpack_int U16 data offset) (\<lambda>v. Inr (PInt v, offset + 2))
          else if pub_type = PUBLISHER_ID_UINT32 then
            and_then (unpack_int U32 data offset) (\<lambda>v. Inr (PInt v, offset + 4))
          else if pub_type = PUBLISHER_ID_STRING then
            decode_string data offset
          else Inr (publisher_id, offset))"

definition decode_group_header ::
  "byte list \<Rightarrow> nat \<Rightarrow> int \<Rightarrow> int \<Rightarrow> error + (int \<times> int) \<times> nat" where
  "decode_group_header data offset writer_group_id sequence_number =
     and_then (byte_at data offset) (\<lambda>group_flags.
       let offset = offset + 1
       in and_then (if group_flags AND 0x01 \<noteq> 0
                    then and_then (unpack_int U16 data offset) (\<lambda>v. Inr (v, offset + 2))
                    else Inr (writer_group_id, offset)) (\<lambda>(writer_group_id, offset).
          let offset = (if group_flags AND 0x02 \<noteq> 0 then offset + 4 else offset)
          in and_then (if group_flags AND 0x04 \<noteq> 0
                       then and_then (unpack_int U16 data offset) (\<lambda>v. Inr (v, offset + 2))
                       else Inr (sequence_number, offset)) (\<lambda>(sequence_number, offset).
             Inr ((writer_group_id, sequence_number), offset))))"

fun read_writer_ids :: "byte list \<Rightarrow> nat \<Rightarrow> nat \<Rightarrow> error + int list \<times> nat" where
  "read_writer_ids data 0 offset = Inr ([], offset)"
| "read_writer_ids data (Suc n) offset =
     and_then (unpack_int U16 data offset) (\<lambda>wid.
     and_then (read_writer_ids data n (offset + 2)) (\<lambda>(wids, offset).
     Inr (wid # wids, offset)))"

definition decode_payload_header :: "byte list \<Rightarrow> nat \<Rightarrow> error + (int \<times> int list) \<times> nat" where
  "decode_payload_header data offset =
     and_then (byte_at data offset) (\<lambda>ds_count.
     and_then (read_writer_ids data (nat ds_count) (offset + 1)) (\<lambda>(writer_ids, offset).
     Inr ((ds_count, writer_ids), offset)))"

definition UADPNetworkMessage_decode :: "byte list \<Rightarrow> error + decoded_message option" where
  "UADPNetworkMessage_decode data =
     (if length data < 2 then Inr None
      else
        and_then (byte_at data 0) (\<lambda>flags.
        let offset = 1;
            version = flags AND VERSION_MASK
        in if version \<noteq> 1 then Inr None
           else
             let has_publisher_id = flags AND PUBLISHER_ID_ENABLED;
                 has_group_header = flags AND GROUP_HEADER_ENABLED;
                 has_payload_header = flags AND PAYLOAD_HEADER_ENABLED
             in and_then (if has_publisher_id \<noteq> 0
                          then decode_publisher_id data offset (PStr [])
                          else Inr (PStr [], offset)) (\<lambda>(publisher_id, offset).
                and_then (if has_group_header \<noteq> 0
                          then decode_group_header data offset 0 0
                          else Inr ((0, 0), offset)) (\<lambda>((writer_group_id, sequence_number), offset).
                and_then (if has_payload_header \<noteq> 0
                          then decode_payload_header data offset
                          else Inr ((1, []), offset)) (\<lambda>((ds_count, writer_ids), offset).
                Inr (Some \<lparr>dm_publisher_id = publisher_id,
                           dm_writer_group_id = writer_group_id,
                           dm_sequence_number = sequence_number,
                           dm_raw_payload = drop offset data,
                           dm_writer_ids = writer_ids,
                           dm_ds_count = ds_count\<rparr>))))))"

section \<open>Interop encoding (\<^verbatim>\<open>benchmarks/benchmark_leve.py\<close>)\<close>

definition DATASET_CLASS_ID :: "byte list" where
  "DATASET_CLASS_ID =
     [0x94, 0x97, 0xe7, 0xea, 0xf7, 0x1a, 0x96, 0x4f,
      0x84, 0x01, 0x40, 0x96, 0xcd, 0x1d, 0x89, 0x08]"

text \<open>\<^verbatim>\<open>publisher_id.encode('utf-8')\<close> exists on a \<open>str\<close> only.\<close>

definition str_encode :: "pyval \<Rightarrow> error + byte list" where
  "str_encode v = (case v of PStr s \<Rightarrow> Inr (utf8_encode s) | _ \<Rightarrow> Inl AttributeError)"

definition encode_uadp_interop ::
  "runtime \<Rightarrow> pyval \<Rightarrow> int \<Rightarrow> (string \<times> pyval \<times> int) list \<Rightarrow> error + byte list" where
  "encode_uadp_interop rt publisher_id dataset_writer_id field_list =
     and_then (append_byte 0xD1) (\<lambda>b0.
     and_then (append_byte 0x0C) (\<lambda>b1.
     and_then (str_encode publisher_id) (\<lambda>pub_bytes.
     and_then (pack_int I32 (PInt (int (length pub_bytes)))) (\<lambda>b2.
     and_then (append_byte 0x01) (\<lambda>b3.
     and_then (pack_int U16 (PInt dataset_writer_id)) (\<lambda>b4.
     and_then (append_byte 0x01) (\<lambda>b5.
     and_then (pack_int U16 (PInt (int (length field_list)))) (\<lambda>b6.
     and_then (extend_all (\<lambda>(name, v, type_id).
                 and_then (append_byte type_id) (\<lambda>t.
                 and_then (encode_value rt v (Some type_id)) (\<lambda>b. Inr (t @ b)))) field_list) (\<lambda>b7.
     Inr (b0 @ b1 @ b2 @ pub_bytes @ DATASET_CLASS_ID @ b3 @ b4 @ b5 @ b6 @ b7))))))))))"

section \<open>Representable values and encoded widths\<close>

text \<open>
  The values the round-trip law ranges over: a bool for Boolean; an int within the
  range of an integer type; a float other than NaN (which equals nothing, itself
  included) for Float and Double; None or a string of well-formed UTF-8 shorter than
  \<open>2\<^sup>3\<^sup>1\<close> bytes for String; an unsigned 64-bit tick count for DateTime; None or a
  bytes object shorter than \<open>2\<^sup>3\<^sup>1\<close> for ByteString. Guid has no decoder and no value.
\<close>

definition int_in :: "ifmt \<Rightarrow> pyval \<Rightarrow> bool" where
  "int_in f v = (case v of PInt i \<Rightarrow> ifmt_min f \<le> i \<and> i \<le> ifmt_max f | _ \<Rightarrow> False)"

definition representable :: "int \<Rightarrow> pyval \<Rightarrow> bool" where
  "representable t v =
     (if t = BOOLEAN then (case v of PBool b \<Rightarrow> True | _ \<Rightarrow> False)
      else if t = SBYTE then int_in I8 v
      else if t = BYTE then int_in U8 v
      else if t = INT16 then int_in I16 v
      else if t = UINT16 then int_in U16 v
      else if t = INT32 then int_in I32 v
      else if t = UINT32 then int_in U32 v
      else if t = INT64 then int_in I64 v
      else if t = UINT64 then int_in U64 v
      else if t = FLOAT \<or> t = DOUBLE then
        (case v of PFloat w \<Rightarrow> f32_val w \<noteq> FNaN | _ \<Rightarrow> False)
      else if t = STRING then
        (case v of PNone \<Rightarrow> True
         | PStr s \<Rightarrow> utf8_valid (utf8_encode s) \<and> length (utf8_encode s) < 2 ^ 31
         | _ \<Rightarrow> False)
      else if t = DATETIME then int_in U64 v
      else if t = BYTESTRING then
        (case v of PNone \<Rightarrow> True | PBytes b \<Rightarrow> length b < 2 ^ 31 | _ \<Rightarrow> False)
      else False)"

text \<open>
  The number of bytes the law expects the decoder to consume: the fixed width of a
  fixed-width type; for String and ByteString, 4 plus the payload length, or 4 for None.
\<close>

definition encoded_width :: "int \<Rightarrow> pyval \<Rightarrow> nat" where
  "encoded_width t v =
     (if t = BOOLEAN \<or> t = SBYTE \<or> t = BYTE then 1
      else if t = INT16 \<or> t = UINT16 then 2
      else if t = INT32 \<or> t = UINT32 \<or> t = FLOAT then 4
      else if t = INT64 \<or> t = UINT64 \<or> t = DOUBLE \<or> t = DATETIME then 8
      else (case v of PStr s \<Rightarrow> 4 + length (utf8_encode s)
            | PBytes b \<Rightarrow> 4 + length b
            | _ \<Rightarrow> 4))"


text \<open>
  The inference rule for integers as the specification words it: the narrowest signed
  type that contains the integer, that is the first of SByte, Int16, Int32, Int64, in
  this widening order, in which the integer is representable; none when no signed type
  contains it.
\<close>

definition narrowest_signed :: "int \<Rightarrow> int option" where
  "narrowest_signed i = find (\<lambda>t. representable t (PInt i)) [SBYTE, INT16, INT32, INT64]"

section \<open>Example inputs\<close>

text \<open>An interpreter whose clock fails and whose \<open>str\<close> and \<open>int\<close> of floats, bytes and strings are trivial.\<close>

definition rt0 :: runtime where
  "rt0 = \<lparr>time_time = None, float_str = (\<lambda>w. []), bytes_str = (\<lambda>b. []),
          int_parse = (\<lambda>b. None)\<rparr>"

definition dv_example :: data_value where
  "dv_example = UADPDataValue (PInt 5) (Some SBYTE) 0x80000000 (PInt 1)"

text \<open>
  The first message of a publisher: \<^verbatim>\<open>UADPPublisher("ESP32", ...).publish(1000, {"Temperature": 60})\<close>
  builds this NetworkMessage, with message count 1.
\<close>

definition ds_example :: dataset_message where
  "ds_example = add_field (UADPDataSetMessage 1000 1) ''Temperature'' (PInt 60) None"

definition nm_example :: network_message where
  "nm_example =
     add_dataset_message ((UADPNetworkMessage (PStr ''ESP32'') 1)\<lparr>nm_sequence_number := 1\<rparr>)
       ds_example"

definition nm_example_bytes :: "byte list" where
  "nm_example_bytes =
     [0x71, 0x04, 5, 0, 0, 0, 0x45, 0x53, 0x50, 0x33, 0x32] @
     [0x03, 1, 0, 0, 0, 0, 0, 1, 0] @
     [0x01, 0xE8, 0x03] @
     [0x0B, 0x00, 0x01, 0x00, 0x3C]"

text \<open>The same message with a second DataSetMessage added.\<close>

definition ds_example2 :: dataset_message where
  "ds_example2 = add_field (UADPDataSetMessage 1001 1) ''Status'' (PBool True) None"

definition nm_example2 :: network_message where
  "nm_example2 = add_dataset_message nm_example ds_example2"

section \<open>Basic facts\<close>

lemma and_then_Inr [simp]: "and_then (Inr x) f = f x"
  by (simp add: and_then_def)

lemma and_then_Inl [simp]: "and_then (Inl e) f = Inl e"
  by (simp add: and_then_def)

lemma and_then_eq_Inr:
  "and_then r f = Inr y \<longleftrightarrow> (\<exists>x. r = Inr x \<and> f x = Inr y)"
  by (cases r) simp_all

lemmas type_ids =
  BOOLEAN_def SBYTE_def BYTE_def INT16_def UINT16_def INT32_def UINT32_def INT64_def
  UINT64_def FLOAT_def DOUBLE_def STRING_def DATETIME_def GUID_def BYTESTRING_def

lemma le_bytes_numeral [simp]:
  "le_bytes (numeral k) n = of_nat n # le_bytes (pred_numeral k) (n div 256)"
  by (simp add: numeral_eq_Suc [of k])

lemma length_le_bytes [simp]: "length (le_bytes k n) = k"
  by (induction k arbitrary: n) auto

lemma append_byte_ok: "0 \<le> x \<Longrightarrow> x \<le> 255 \<Longrightarrow> append_byte x = Inr [of_int x]"
  by (simp add: append_byte_def)


section \<open>Type inference\<close>

lemma from_python_sbyte: "from_python (PInt i) = SBYTE \<longleftrightarrow> - 128 \<le> i \<and> i \<le> 127"
  by (simp add: type_ids)

lemma from_python_int16:
  "from_python (PInt i) = INT16 \<longleftrightarrow>
     (- 32768 \<le> i \<and> i \<le> 32767) \<and> \<not> (- 128 \<le> i \<and> i \<le> 127)"
  by (simp add: type_ids)

lemma from_python_int32:
  "from_python (PInt i) = INT32 \<longleftrightarrow>
     (- 2147483648 \<le> i \<and> i \<le> 2147483647) \<and> \<not> (- 32768 \<le> i \<and> i \<le> 32767)"
  by (simp add: type_ids)

lemma from_python_int64:
  "from_python (PInt i) = INT64 \<longleftrightarrow> \<not> (- 2147483648 \<le> i \<and> i \<le> 2147483647)"
  by (simp add: type_ids)

lemma from_python_others:
  "from_python (PBool b) = BOOLEAN \<and> from_python (PInt 42) = SBYTE
   \<and> from_python (PInt 200) = INT16 \<and> from_python (PFloat w) = FLOAT
   \<and> from_python (PStr s) = STRING \<and> from_python (PBytes bs) = BYTESTRING
   \<and> from_python PNone = STRING \<and> from_python (PObj t r) = STRING"
  by (simp add: type_ids)

lemma contains_sbyte: "representable SBYTE (PInt i) \<longleftrightarrow> - 128 \<le> i \<and> i \<le> 127"
  by (simp add: representable_def int_in_def ifmt_min_def ifmt_max_def type_ids)

lemma contains_int16: "representable INT16 (PInt i) \<longleftrightarrow> - 32768 \<le> i \<and> i \<le> 32767"
  by (simp add: representable_def int_in_def ifmt_min_def ifmt_max_def type_ids)

lemma contains_int32:
  "representable INT32 (PInt i) \<longleftrightarrow> - 2147483648 \<le> i \<and> i \<le> 2147483647"
  by (simp add: representable_def int_in_def ifmt_min_def ifmt_max_def type_ids)

lemma contains_int64:
  "representable INT64 (PInt i) \<longleftrightarrow>
     - 9223372036854775808 \<le> i \<and> i \<le> 9223372036854775807"
  by (simp add: representable_def int_in_def ifmt_min_def ifmt_max_def type_ids)

lemma narrowest_signed_unfold:
  "narrowest_signed i =
     (if - 128 \<le> i \<and> i \<le> 127 then Some SBYTE
      else if - 32768 \<le> i \<and> i \<le> 32767 then Some INT16
      else if - 2147483648 \<le> i \<and> i \<le> 2147483647 then Some INT32
      else if - 9223372036854775808 \<le> i \<and> i \<le> 9223372036854775807 then Some INT64
      else None)"
  unfolding narrowest_signed_def
  by (simp only: find.simps contains_sbyte contains_int16 contains_int32 contains_int64)

lemma from_python_narrowest:
  "from_python (PInt i) = (case narrowest_signed i of Some t \<Rightarrow> t | None \<Rightarrow> INT64)"
  unfolding narrowest_signed_unfold by simp

lemma narrowest_signed_defined:
  "narrowest_signed i \<noteq> None \<longleftrightarrow>
     - 9223372036854775808 \<le> i \<and> i \<le> 9223372036854775807"
  unfolding narrowest_signed_unfold by simp

lemma from_python_contains:
  "representable (from_python (PInt i)) (PInt i) \<longleftrightarrow>
     - 9223372036854775808 \<le> i \<and> i \<le> 9223372036854775807"
proof -
  consider "- 128 \<le> i \<and> i \<le> 127"
    | "\<not> (- 128 \<le> i \<and> i \<le> 127)" "- 32768 \<le> i \<and> i \<le> 32767"
    | "\<not> (- 32768 \<le> i \<and> i \<le> 32767)" "- 2147483648 \<le> i \<and> i \<le> 2147483647"
    | "\<not> (- 2147483648 \<le> i \<and> i \<le> 2147483647)"
    by blast
  then show ?thesis
  proof cases
    case 1
    then have "from_python (PInt i) = SBYTE" by (simp only: from_python_sbyte)
    then show ?thesis using 1 by (simp only: contains_sbyte) arith
  next
    case 2
    then have "from_python (PInt i) = INT16" by (simp only: from_python_int16 simp_thms)
    then show ?thesis using 2 by (simp only: contains_int16) arith
  next
    case 3
    then have "from_python (PInt i) = INT32" by (simp only: from_python_int32 simp_thms)
    then show ?thesis using 3 by (simp only: contains_int32) arith
  next
    case 4
    then have "from_python (PInt i) = INT64" by (simp only: from_python_int64 simp_thms)
    then show ?thesis by (simp only: contains_int64)
  qed
qed

text \<open>
  C8, as amended. \<open>from_python\<close> maps a bool to Boolean; an int within the Int64 range
  \<open>-2\<^sup>6\<^sup>3 .. 2\<^sup>6\<^sup>3-1\<close> to the narrowest signed type that contains it, widening SByte
  (-128..127), then Int16 (-32768..32767), then Int32 (-2147483648..2147483647), then
  Int64 (so 42 gives SByte and 200 gives Int16); an int outside the Int64 range to
  Int64 as well, a type that does not contain it: the inferred type contains the
  integer exactly when the integer lies in the Int64 range; a float to Float; a str to
  String; bytes to ByteString; and any other value (None, any other object) to String.
\<close>

theorem from_python_infers:
  "from_python (PBool b) = BOOLEAN
   \<and> from_python (PInt i) = (case narrowest_signed i of Some t \<Rightarrow> t | None \<Rightarrow> INT64)
   \<and> (narrowest_signed i \<noteq> None \<longleftrightarrow>
        - 9223372036854775808 \<le> i \<and> i \<le> 9223372036854775807)
   \<and> (representable (from_python (PInt i)) (PInt i) \<longleftrightarrow>
        - 9223372036854775808 \<le> i \<and> i \<le> 9223372036854775807)
   \<and> (from_python (PInt i) = SBYTE \<longleftrightarrow> - 128 \<le> i \<and> i \<le> 127)
   \<and> (from_python (PInt i) = INT16 \<longleftrightarrow>
        (- 32768 \<le> i \<and> i \<le> 32767) \<and> \<not> (- 128 \<le> i \<and> i \<le> 127))
   \<and> (from_python (PInt i) = INT32 \<longleftrightarrow>
        (- 2147483648 \<le> i \<and> i \<le> 2147483647) \<and> \<not> (- 32768 \<le> i \<and> i \<le> 32767))
   \<and> (from_python (PInt i) = INT64 \<longleftrightarrow> \<not> (- 2147483648 \<le> i \<and> i \<le> 2147483647))
   \<and> from_python (PInt 42) = SBYTE
   \<and> from_python (PInt 200) = INT16
   \<and> from_python (PFloat w) = FLOAT
   \<and> from_python (PStr s) = STRING
   \<and> from_python (PBytes bs) = BYTESTRING
   \<and> from_python PNone = STRING
   \<and> from_python (PObj t r) = STRING"
  using from_python_sbyte [of i] from_python_int16 [of i] from_python_int32 [of i]
    from_python_int64 [of i] from_python_others [of b w s bs t r]
    from_python_narrowest [of i] narrowest_signed_defined [of i] from_python_contains [of i]
  by blast

theorem from_python_infers_witness:
  "from_python (PInt 40000) = INT32
   \<and> narrowest_signed 40000 \<noteq> None
   \<and> representable (from_python (PInt 40000)) (PInt 40000)"
  using from_python_infers [of True 40000 0 "[]" "[]" True "[]"] by simp

text \<open>
  The claim as stated fails at the integer \<open>2\<^sup>6\<^sup>3\<close>: no signed type contains it, yet
  \<open>from_python\<close> answers Int64, and encoding the value at the inferred type raises
  (\<^verbatim>\<open>struct.pack('<q', 2**63)\<close>).
\<close>

theorem from_python_beyond_int64_counterexample:
  "from_python (PInt 9223372036854775808) = INT64
   \<and> \<not> representable INT64 (PInt 9223372036854775808)
   \<and> narrowest_signed 9223372036854775808 = None
   \<and> encode_value rt0 (PInt 9223372036854775808) None = Inl StructError"
proof -
  have a: "from_python (PInt 9223372036854775808) = INT64"
    by (simp add: type_ids)
  have b: "\<not> representable INT64 (PInt 9223372036854775808)"
    by (simp add: representable_def int_in_def ifmt_min_def ifmt_max_def type_ids)
  have c: "narrowest_signed 9223372036854775808 = None"
    by (simp add: narrowest_signed_unfold)
  have d: "pack_int I64 (PInt 9223372036854775808) = Inl StructError"
    by (simp add: pack_int_def ifmt_min_def ifmt_max_def)
  have "encode_value rt0 (PInt 9223372036854775808) None = Inl StructError"
    unfolding encode_value_def Let_def option.case a
    by (simp add: encoders_def type_ids encode_int64_def d)
  with a b c show ?thesis by blast
qed

section \<open>The interop fixture\<close>

lemma bit_length_51: "bit_length 51 = 6"
  by (simp add: bit_length.simps)

text \<open>The float 25.5 is \<open>51 * 2\<^sup>-\<^sup>1\<close>; its binary32 pattern is \<open>0x41CC0000\<close>.\<close>

lemma f32_of_25_5: "f32_of (FFin False 51 (- 1)) = 0x41CC0000"
  by (simp add: f32_of_def float_encode_def bit_length_51 round_shift_def Let_def)

lemma f32_val_25_5: "f32_val 0x41CC0000 = FFin False (51 * 2 ^ 18) (- 1 - 18)"
  by (simp add: f32_val_def float_decode_def Let_def)

lemma pack_i32_5: "pack_int I32 (PInt 5) = Inr [5, 0, 0, 0]"
  by (simp add: pack_int_def ifmt_min_def ifmt_max_def)

lemma pack_u16_1000: "pack_int U16 (PInt 1000) = Inr [0xE8, 0x03]"
  by (simp add: pack_int_def ifmt_min_def ifmt_max_def)

lemma pack_u16_1: "pack_int U16 (PInt 1) = Inr [0x01, 0x00]"
  by (simp add: pack_int_def ifmt_min_def ifmt_max_def)

lemma encode_value_25_5:
  "encode_value rt (PFloat (f32_of (FFin False 51 (- 1)))) (Some FLOAT) =
     Inr [0x00, 0x00, 0xCC, 0x41]"
  by (simp add: encode_value_def encoders_def type_ids encode_float_def f32_of_25_5)

lemma utf8_encode_ESP32: "utf8_encode ''ESP32'' = [0x45, 0x53, 0x50, 0x33, 0x32]"
  by (simp add: utf8_encode_def)

text \<open>
  C1. For publisher id "ESP32", writer id 1000 and the single field
  ("Val_F32_A", 25.5, Float), \<open>encode_uadp_interop\<close> returns exactly: \<open>0xD1 0x0C\<close>, the
  4-byte little-endian length 5, the UTF-8 bytes of "ESP32", the 16 bytes of
  \<open>DATASET_CLASS_ID\<close>, \<open>0x01\<close>, 1000 in two little-endian bytes, \<open>0x01\<close>, the field count 1
  in two little-endian bytes, the type tag \<open>0x0A\<close>, and the four little-endian bytes of
  the binary32 float 25.5.
\<close>

theorem interop_fixture:
  "encode_uadp_interop rt (PStr ''ESP32'') 1000
     [(''Val_F32_A'', PFloat (f32_of (FFin False 51 (- 1))), FLOAT)] =
   Inr ([0xD1, 0x0C] @ [5, 0, 0, 0] @ [0x45, 0x53, 0x50, 0x33, 0x32] @
        [0x94, 0x97, 0xe7, 0xea, 0xf7, 0x1a, 0x96, 0x4f,
         0x84, 0x01, 0x40, 0x96, 0xcd, 0x1d, 0x89, 0x08] @
        [0x01] @ [0xE8, 0x03] @ [0x01] @ [0x01, 0x00] @ [0x0A] @ [0x00, 0x00, 0xCC, 0x41])"
proof -
  have tag: "append_byte FLOAT = Inr [0x0A]"
    by (simp add: append_byte_def FLOAT_def)
  show ?thesis
    by (simp add: encode_uadp_interop_def append_byte_def [of "0xD1"] append_byte_def [of "0x0C"]
        append_byte_def [of "0x01"] str_encode_def utf8_encode_ESP32 pack_i32_5 pack_u16_1000
        pack_u16_1 tag encode_value_25_5 DATASET_CLASS_ID_def)
qed


section \<open>Null strings\<close>

lemma pack_int_null: "pack_int I32 (PInt (- 1)) = Inr [0xFF, 0xFF, 0xFF, 0xFF]"
  by (simp add: pack_int_def ifmt_min_def ifmt_max_def)

lemma unpack_int_take:
  "unpack_int f (take (offset + ifmt_size f) data) offset = unpack_int f data offset"
proof (cases "offset + ifmt_size f \<le> length data")
  case True
  have "take (ifmt_size f) (drop offset (take (offset + ifmt_size f) data)) =
        take (ifmt_size f) (drop offset data)"
    by (simp add: drop_take)
  with True show ?thesis by (simp add: unpack_int_def min_def)
next
  case False
  then show ?thesis by (simp add: unpack_int_def)
qed

lemma decode_string_null:
  "unpack_int I32 data offset = Inr len \<Longrightarrow> len < 0 \<Longrightarrow>
     decode_string data offset = Inr (PNone, offset + 4)"
  by (simp add: decode_string_def)

lemma decode_bytestring_null:
  "unpack_int I32 data offset = Inr len \<Longrightarrow> len < 0 \<Longrightarrow>
     decode_bytestring data offset = Inr (PNone, offset + 4)"
  by (simp add: decode_bytestring_def)

text \<open>
  C9. Encoding a null String or ByteString gives exactly the four bytes of the
  little-endian signed 32-bit length -1; decoding a String or ByteString whose length
  prefix is negative returns None and the offset advanced by 4, and does so as well on
  the buffer cut right after the prefix: no payload byte is read.
\<close>

theorem null_string_codec:
  "encode_string PNone = Inr [0xFF, 0xFF, 0xFF, 0xFF]
   \<and> encode_bytestring PNone = Inr [0xFF, 0xFF, 0xFF, 0xFF]
   \<and> encode_value rt PNone (Some STRING) = Inr [0xFF, 0xFF, 0xFF, 0xFF]
   \<and> encode_value rt PNone (Some BYTESTRING) = Inr [0xFF, 0xFF, 0xFF, 0xFF]
   \<and> (unpack_int I32 data offset = Inr len \<and> len < 0 \<longrightarrow>
        decode_string data offset = Inr (PNone, offset + 4)
        \<and> decode_bytestring data offset = Inr (PNone, offset + 4)
        \<and> decode_string (take (offset + 4) data) offset = Inr (PNone, offset + 4)
        \<and> decode_bytestring (take (offset + 4) data) offset = Inr (PNone, offset + 4))"
proof -
  have e1: "encode_value rt PNone (Some STRING) = Inr [0xFF, 0xFF, 0xFF, 0xFF]"
    by (simp add: encode_value_def encoders_def type_ids pack_int_null)
  have e2: "encode_value rt PNone (Some BYTESTRING) = Inr [0xFF, 0xFF, 0xFF, 0xFF]"
    by (simp add: encode_value_def encoders_def type_ids pack_int_null)
  have d: "decode_string data offset = Inr (PNone, offset + 4)
        \<and> decode_bytestring data offset = Inr (PNone, offset + 4)
        \<and> decode_string (take (offset + 4) data) offset = Inr (PNone, offset + 4)
        \<and> decode_bytestring (take (offset + 4) data) offset = Inr (PNone, offset + 4)"
    if u: "unpack_int I32 data offset = Inr len" and n: "len < 0"
  proof -
    have t: "unpack_int I32 (take (offset + 4) data) offset = Inr len"
      using unpack_int_take [of I32 offset data] u by simp
    show ?thesis
      using decode_string_null [OF u n] decode_bytestring_null [OF u n]
        decode_string_null [OF t n] decode_bytestring_null [OF t n] by simp
  qed
  show ?thesis using e1 e2 d by (simp add: pack_int_null)
qed

lemma unpack_null: "unpack_int I32 [0xFF, 0xFF, 0xFF, 0xFF, 0x41] 0 = Inr (- 1)"
  by (simp add: unpack_int_def)

theorem null_string_codec_witness:
  "unpack_int I32 [0xFF, 0xFF, 0xFF, 0xFF, 0x41] 0 = Inr (- 1) \<and> (- 1 :: int) < 0
   \<and> decode_string [0xFF, 0xFF, 0xFF, 0xFF, 0x41] 0 = Inr (PNone, 4)
   \<and> decode_bytestring [0xFF, 0xFF, 0xFF, 0xFF, 0x41] 0 = Inr (PNone, 4)"
  using null_string_codec [of undefined "[0xFF, 0xFF, 0xFF, 0xFF, 0x41]" 0 "- 1"] unpack_null
  by simp


section \<open>Unsupported versions\<close>

text \<open>
  C5. For every buffer whose first byte has low four bits other than 1,
  \<open>UADPNetworkMessage_decode\<close> returns None: no message, not even a partial one.
\<close>

theorem decode_rejects_version:
  "data \<noteq> [] \<Longrightarrow> uint (hd data) AND 0x0F \<noteq> 1 \<Longrightarrow> UADPNetworkMessage_decode data = Inr None"
  by (simp add: UADPNetworkMessage_decode_def byte_at_def hd_conv_nth VERSION_MASK_def)

theorem decode_rejects_version_witness:
  "[0x72, 0x00 :: byte] \<noteq> [] \<and> uint (hd [0x72, 0x00 :: byte]) AND 0x0F \<noteq> 1
   \<and> UADPNetworkMessage_decode [0x72, 0x00] = Inr None"
  using decode_rejects_version [of "[0x72, 0x00]"] by simp

section \<open>The DataValue mask\<close>

lemma dv_mask_cases:
  "dv_mask dv s t =
     (if s \<and> dv_status_code dv \<noteq> GOOD then (if t then 7 else 3) else (if t then 5 else 1))"
  by (simp add: dv_mask_def Let_def)

lemma data_value_encode_7:
  "dv_mask dv s t = 7 \<Longrightarrow>
   UADPDataValue_encode rt dv s t =
     and_then (encode_value rt (dv_value dv) (Some (dv_type_id dv))) (\<lambda>vb.
     and_then (encode_status_code (dv_status_code dv)) (\<lambda>sb.
     and_then (encode_datetime rt (dv_source_timestamp dv)) (\<lambda>tb.
     Inr (7 # vb @ sb @ tb))))"
  by (simp add: UADPDataValue_encode_def append_byte_def)

lemma data_value_encode_3:
  "dv_mask dv s t = 3 \<Longrightarrow>
   UADPDataValue_encode rt dv s t =
     and_then (encode_value rt (dv_value dv) (Some (dv_type_id dv))) (\<lambda>vb.
     and_then (encode_status_code (dv_status_code dv)) (\<lambda>sb.
     and_then (Inr []) (\<lambda>tb.
     Inr (3 # vb @ sb @ tb))))"
  by (simp add: UADPDataValue_encode_def append_byte_def)

lemma data_value_encode_5:
  "dv_mask dv s t = 5 \<Longrightarrow>
   UADPDataValue_encode rt dv s t =
     and_then (encode_value rt (dv_value dv) (Some (dv_type_id dv))) (\<lambda>vb.
     and_then (Inr []) (\<lambda>sb.
     and_then (encode_datetime rt (dv_source_timestamp dv)) (\<lambda>tb.
     Inr (5 # vb @ sb @ tb))))"
  by (simp add: UADPDataValue_encode_def append_byte_def)

lemma data_value_encode_1:
  "dv_mask dv s t = 1 \<Longrightarrow>
   UADPDataValue_encode rt dv s t =
     and_then (encode_value rt (dv_value dv) (Some (dv_type_id dv))) (\<lambda>vb.
     and_then (Inr []) (\<lambda>sb.
     and_then (Inr []) (\<lambda>tb.
     Inr (1 # vb @ sb @ tb))))"
  by (simp add: UADPDataValue_encode_def append_byte_def)

text \<open>
  C7. For every DataValue and every \<open>include_status\<close>, \<open>include_timestamp\<close>, the mask
  byte \<open>m\<close> that \<open>UADPDataValue_encode\<close> emits has bit 0 set, bit 1 set exactly when
  \<open>include_status\<close> holds and the status code is not the constant \<open>GOOD\<close>, bit 2 set
  exactly when \<open>include_timestamp\<close> holds, and no other bit; the output is \<open>m\<close>, then
  the encoded value, then the status code (only if bit 1 is set), then the timestamp
  (only if bit 2 is set), and an exception of one of these encoders is the exception of
  the whole, in that order.
\<close>

theorem data_value_encode_layout:
  "(let m = (of_int (dv_mask dv s t) :: byte);
        ev = encode_value rt (dv_value dv) (Some (dv_type_id dv));
        es = (if bit m 1 then encode_status_code (dv_status_code dv) else Inr []);
        et = (if bit m 2 then encode_datetime rt (dv_source_timestamp dv) else Inr [])
    in bit m 0
       \<and> (bit m 1 \<longleftrightarrow> s \<and> dv_status_code dv \<noteq> GOOD)
       \<and> (bit m 2 \<longleftrightarrow> t)
       \<and> m AND 0xF8 = 0
       \<and> UADPDataValue_encode rt dv s t =
           and_then ev (\<lambda>vb. and_then es (\<lambda>sb. and_then et (\<lambda>tb. Inr (m # vb @ sb @ tb)))))"
proof (cases "s \<and> dv_status_code dv \<noteq> GOOD")
  case True
  note st = True
  show ?thesis
  proof (cases t)
    case True
    with st have m: "dv_mask dv s t = 7" by (simp add: dv_mask_cases)
    have mb: "(of_int (dv_mask dv s t) :: byte) = 7" by (simp add: m)
    show ?thesis
      unfolding Let_def mb data_value_encode_7 [OF m] using st True by simp
  next
    case False
    with st have m: "dv_mask dv s t = 3" by (simp add: dv_mask_cases)
    have mb: "(of_int (dv_mask dv s t) :: byte) = 3" by (simp add: m)
    show ?thesis
      unfolding Let_def mb data_value_encode_3 [OF m] using st False by simp
  qed
next
  case False
  note st = False
  show ?thesis
  proof (cases t)
    case True
    with st have m: "dv_mask dv s t = 5" by (simp add: dv_mask_cases)
    have mb: "(of_int (dv_mask dv s t) :: byte) = 5" by (simp add: m)
    show ?thesis
      unfolding Let_def mb data_value_encode_5 [OF m] using st True by simp
  next
    case False
    with st have m: "dv_mask dv s t = 1" by (simp add: dv_mask_cases)
    have mb: "(of_int (dv_mask dv s t) :: byte) = 1" by (simp add: m)
    show ?thesis
      unfolding Let_def mb data_value_encode_1 [OF m] using st False by simp
  qed
qed

lemma dv_example_parts:
  "dv_value dv_example = PInt 5 \<and> dv_type_id dv_example = SBYTE
   \<and> dv_status_code dv_example = 0x80000000 \<and> dv_source_timestamp dv_example = PInt 1"
  by (simp add: dv_example_def UADPDataValue_def type_ids)

lemma dv_example_mask: "dv_mask dv_example True True = 7"
  by (simp add: dv_mask_cases dv_example_parts GOOD_def)

lemma dv_example_value: "encode_value rt0 (PInt 5) (Some SBYTE) = Inr [5]"
  by (simp add: encode_value_def encoders_def type_ids encode_sbyte_def pack_int_def
      ifmt_min_def ifmt_max_def)

lemma dv_example_status: "encode_status_code 0x80000000 = Inr [0, 0, 0, 0x80]"
  by (simp add: encode_status_code_def pack_int_def ifmt_min_def ifmt_max_def)

lemma dv_example_time: "encode_datetime rt0 (PInt 1) = Inr [1, 0, 0, 0, 0, 0, 0, 0]"
  by (simp add: encode_datetime_def pack_int_def ifmt_min_def ifmt_max_def)

theorem data_value_encode_layout_witness:
  "UADPDataValue_encode rt0 dv_example True True =
     Inr ([7] @ [5] @ [0, 0, 0, 0x80] @ [1, 0, 0, 0, 0, 0, 0, 0])"
  using data_value_encode_layout [of dv_example True True rt0]
  by (simp add: dv_example_mask dv_example_parts dv_example_value dv_example_status
      dv_example_time)

section \<open>The group header\<close>

lemma pack_u16: "0 \<le> i \<Longrightarrow> i \<le> 65535 \<Longrightarrow>
    pack_int U16 (PInt i) = Inr [of_nat (nat i), of_nat (nat i div 256)]"
  by (simp add: pack_int_def ifmt_min_def ifmt_max_def)

lemma pack_u32_0: "pack_int U32 (PInt 0) = Inr [0, 0, 0, 0]"
  by (simp add: pack_int_def ifmt_min_def ifmt_max_def)

lemma pack_u16_masked:
  "pack_int U16 (PInt (i AND 0xFFFF)) =
     Inr [of_nat (nat (i AND 0xFFFF)), of_nat (nat (i AND 0xFFFF) div 256)]"
proof -
  have "i AND 0xFFFF = take_bit 16 i"
    by (simp add: take_bit_eq_mask mask_eq_exp_minus_1)
  then have "0 \<le> i AND 0xFFFF" "i AND 0xFFFF \<le> 65535"
    using take_bit_int_less_exp [of 16 i] by simp_all
  then show ?thesis by (rule pack_u16)
qed

lemma encode_group_header_bytes:
  assumes "nm_include_group_header self"
    and "0 \<le> nm_writer_group_id self" and "nm_writer_group_id self \<le> 65535"
  shows "encode_group_header self =
           Inr ([0x03] @
                [of_nat (nat (nm_writer_group_id self)),
                 of_nat (nat (nm_writer_group_id self) div 256)] @
                [0, 0, 0, 0] @
                [of_nat (nat (nm_sequence_number self AND 0xFFFF)),
                 of_nat (nat (nm_sequence_number self AND 0xFFFF) div 256)])"
  using assms
  by (simp add: encode_group_header_def append_byte_def pack_u16 pack_u32_0 pack_u16_masked)

lemma nm_example_fields:
  "nm_publisher_id nm_example = PStr ''ESP32'' \<and> nm_writer_group_id nm_example = 1
   \<and> nm_sequence_number nm_example = 1 \<and> nm_include_group_header nm_example
   \<and> nm_include_payload_header nm_example \<and> nm_dataset_messages nm_example = [ds_example]"
  by (simp add: nm_example_def add_dataset_message_def UADPNetworkMessage_def)

lemma ds_example_fields:
  "ds_dataset_writer_id ds_example = 1000 \<and> ds_sequence_number ds_example = 1
   \<and> ds_fields ds_example = [(''Temperature'', PInt 60, SBYTE)]
   \<and> ds_field_encoding ds_example = FIELD_ENCODING_RAWDATA"
  by (simp add: ds_example_def add_field_def UADPDataSetMessage_def type_ids)

lemma ds_example_encode:
  "UADPDataSetMessage_encode rt ds_example = Inr [0x0B, 0x00, 0x01, 0x00, 0x3C]"
proof -
  have v: "encode_value rt (PInt 60) (Some SBYTE) = Inr [0x3C]"
    by (simp add: encode_value_def encoders_def type_ids encode_sbyte_def pack_int_def
        ifmt_min_def ifmt_max_def)
  have s: "pack_int U16 (PInt 1) = Inr [1, 0]"
    by (simp add: pack_int_def ifmt_min_def ifmt_max_def)
  show ?thesis
    by (simp add: UADPDataSetMessage_encode_def Let_def ds_example_fields s v append_byte_def
        VALID_def FIELD_ENCODING_RAWDATA_def SEQUENCE_NUMBER_ENABLED_def)
qed

lemma nm_example_header:
  "append_byte (nm_flags nm_example) = Inr [0x71]
   \<and> encode_publisher_id (nm_publisher_id nm_example) =
       Inr [0x04, 5, 0, 0, 0, 0x45, 0x53, 0x50, 0x33, 0x32]"
  by (simp add: nm_flags_def Let_def nm_example_fields VERSION_def VERSION_MASK_def
      PUBLISHER_ID_ENABLED_def GROUP_HEADER_ENABLED_def PAYLOAD_HEADER_ENABLED_def
      PUBLISHER_ID_STRING_def append_byte_def utf8_encode_def pack_int_def ifmt_min_def
      ifmt_max_def)

lemma nm_example_group: "encode_group_header nm_example = Inr [0x03, 1, 0, 0, 0, 0, 0, 1, 0]"
  using encode_group_header_bytes [of nm_example] by (simp add: nm_example_fields)

lemma nm_example_payload_header: "encode_payload_header nm_example = Inr [0x01, 0xE8, 0x03]"
  by (simp add: encode_payload_header_def nm_example_fields ds_example_fields append_byte_def
      pack_u16)

lemma nm_example_payload: "encode_payload rt nm_example = Inr [0x0B, 0x00, 0x01, 0x00, 0x3C]"
  by (simp add: encode_payload_def nm_example_fields ds_example_encode)

lemma nm_example_encode: "UADPNetworkMessage_encode rt nm_example = Inr nm_example_bytes"
  by (simp add: UADPNetworkMessage_encode_def nm_example_header nm_example_group
      nm_example_payload_header nm_example_payload nm_example_bytes_def)

lemma utf8_decode_ESP32: "utf8_decode [0x45, 0x53, 0x50, 0x33, 0x32] = Inr ''ESP32''"
  by (simp add: utf8_decode_def char_of_def bit_Suc_0_iff)

lemma nm_example_decode_publisher:
  "decode_publisher_id nm_example_bytes (Suc 0) (PStr []) = Inr (PStr ''ESP32'', 11)"
  by (simp add: decode_publisher_id_def byte_at_def nm_example_bytes_def Let_def
      PUBLISHER_ID_BYTE_def PUBLISHER_ID_UINT16_def PUBLISHER_ID_UINT32_def
      PUBLISHER_ID_STRING_def decode_string_def unpack_int_def utf8_decode_ESP32)

lemma nm_example_decode_group:
  "decode_group_header nm_example_bytes 11 0 0 = Inr ((1, 0), 18)"
  by (simp add: decode_group_header_def byte_at_def nm_example_bytes_def Let_def unpack_int_def)

lemma nm_example_decode_payload_header:
  "decode_payload_header nm_example_bytes 18 = Inr ((1, [256]), 21)"
  by (simp add: decode_payload_header_def byte_at_def nm_example_bytes_def unpack_int_def)

lemma nm_example_decode:
  "UADPNetworkMessage_decode nm_example_bytes =
     Inr (Some \<lparr>dm_publisher_id = PStr ''ESP32'', dm_writer_group_id = 1,
                dm_sequence_number = 0,
                dm_raw_payload = [0xE8, 0x03, 0x0B, 0x00, 0x01, 0x00, 0x3C],
                dm_writer_ids = [256], dm_ds_count = 1\<rparr>)"
proof -
  have f: "byte_at nm_example_bytes 0 = Inr 0x71" "length nm_example_bytes = 28"
    by (simp_all add: byte_at_def nm_example_bytes_def)
  have d: "drop 21 nm_example_bytes = [0xE8, 0x03, 0x0B, 0x00, 0x01, 0x00, 0x3C]"
    by (simp add: nm_example_bytes_def)
  show ?thesis
    by (simp add: UADPNetworkMessage_decode_def f Let_def VERSION_MASK_def
        PUBLISHER_ID_ENABLED_def GROUP_HEADER_ENABLED_def PAYLOAD_HEADER_ENABLED_def
        nm_example_decode_publisher nm_example_decode_group nm_example_decode_payload_header d)
qed

text \<open>
  C4. The encoder emits the group-flags byte \<open>0x03\<close>: bits 0 and 1 are set, bit 2
  (NetworkMessageNumberPresent) is not, although the 16-bit sequence number follows the
  group version. On the publisher's first message the module's own decoder therefore
  does not read the sequence number: it takes its low byte for the DataSet count and
  the next two bytes for a writer id.
\<close>

theorem group_flags_bit2_clear:
  "UADPNetworkMessage_encode rt0 nm_example = Inr nm_example_bytes
   \<and> nm_example_bytes ! 11 = 0x03
   \<and> bit (nm_example_bytes ! 11) 0 \<and> bit (nm_example_bytes ! 11) 1
   \<and> \<not> bit (nm_example_bytes ! 11) 2
   \<and> take 8 (drop 12 nm_example_bytes) = [1, 0] @ [0, 0, 0, 0] @ [1, 0]
   \<and> UADPNetworkMessage_decode nm_example_bytes =
       Inr (Some \<lparr>dm_publisher_id = PStr ''ESP32'', dm_writer_group_id = 1,
                  dm_sequence_number = 0,
                  dm_raw_payload = [0xE8, 0x03, 0x0B, 0x00, 0x01, 0x00, 0x3C],
                  dm_writer_ids = [256], dm_ds_count = 1\<rparr>)"
proof -
  have b: "nm_example_bytes ! 11 = 0x03"
    "take 8 (drop 12 nm_example_bytes) = [1, 0] @ [0, 0, 0, 0] @ [1, 0]"
    by (simp_all add: nm_example_bytes_def)
  show ?thesis
    unfolding b using nm_example_encode [of rt0] nm_example_decode by simp
qed


section \<open>The payload of a NetworkMessage\<close>

lemma map_result_eq_Inr: "map_result f xs = Inr ys \<longleftrightarrow> map f xs = map Inr ys"
proof (induction xs arbitrary: ys)
  case Nil
  then show ?case by auto
next
  case (Cons x xs)
  show ?case
  proof (cases "f x")
    case (Inl e)
    then show ?thesis by (cases ys) auto
  next
    case (Inr y)
    note fx = Inr
    show ?thesis
    proof (cases "map_result f xs")
      case (Inl e)
      with Cons.IH have "\<And>zs. map f xs \<noteq> map Inr zs" by (metis sum.distinct(1))
      with fx Inl show ?thesis by (cases ys) auto
    next
      case (Inr zs)
      have a: "map f xs = map Inr zs" using Cons.IH [of zs] Inr by simp
      have b: "map f xs = map Inr ys' \<longleftrightarrow> ys' = zs" for ys'
        unfolding a by (auto simp add: inj_map_eq_map)
      show ?thesis using fx Inr b by (cases ys) auto
    qed
  qed
qed

lemma extend_all_map_result:
  "extend_all f xs = and_then (map_result f xs) (\<lambda>ys. Inr (concat ys))"
proof (induction xs)
  case Nil
  then show ?case by simp
next
  case (Cons x xs)
  show ?case
  proof (cases "f x")
    case (Inl e)
    then show ?thesis by simp
  next
    case (Inr y)
    then show ?thesis using Cons.IH by (cases "map_result f xs") simp_all
  qed
qed

lemma extend_all_Inr: "extend_all Inr ys = Inr (concat ys)"
  by (induction ys) simp_all

lemma pack_u16_length:
  "pack_int U16 (PInt (int n)) = (if n \<le> 65535 then Inr (le_bytes 2 n) else Inl StructError)"
  by (simp add: pack_int_def ifmt_min_def ifmt_max_def del: le_bytes_numeral)

lemma extend_all_sizes:
  "extend_all (\<lambda>e. pack_int U16 (PInt (int (length e)))) encs = Inr sizes \<longleftrightarrow>
     (\<forall>e \<in> set encs. length e \<le> 65535) \<and>
     sizes = concat (map (\<lambda>e. le_bytes 2 (length e)) encs)"
proof (induction encs arbitrary: sizes)
  case Nil
  then show ?case by auto
next
  case (Cons e encs)
  show ?case
  proof (cases "length e \<le> 65535")
    case False
    then show ?thesis by (simp add: pack_u16_length)
  next
    case True
    show ?thesis
    proof (cases "extend_all (\<lambda>e. pack_int U16 (PInt (int (length e)))) encs")
      case (Inl err)
      with Cons.IH have "\<not> (\<forall>e \<in> set encs. length e \<le> 65535)" by auto
      with True Inl show ?thesis by (simp add: pack_u16_length del: le_bytes_numeral)
    next
      case (Inr rest)
      with Cons.IH [of rest] True show ?thesis
        by (auto simp add: pack_u16_length simp del: le_bytes_numeral)
    qed
  qed
qed

lemma encode_payload_single:
  "nm_dataset_messages self = [m] \<Longrightarrow> encode_payload rt self = UADPDataSetMessage_encode rt m"
  by (cases "UADPDataSetMessage_encode rt m") (simp_all add: encode_payload_def)

lemma encode_payload_multi:
  assumes "2 \<le> length (nm_dataset_messages self)"
  shows "encode_payload rt self = Inr body \<longleftrightarrow>
           (\<exists>encs. map (UADPDataSetMessage_encode rt) (nm_dataset_messages self) = map Inr encs
              \<and> (\<forall>e \<in> set encs. length e \<le> 65535)
              \<and> body = concat (map (\<lambda>e. le_bytes 2 (length e)) encs) @ concat encs)"
proof -
  have "encode_payload rt self =
          and_then (map_result (UADPDataSetMessage_encode rt) (nm_dataset_messages self))
            (\<lambda>encs. and_then (extend_all (\<lambda>e. pack_int U16 (PInt (int (length e)))) encs)
              (\<lambda>sizes. Inr (sizes @ concat encs)))"
    using assms by (simp add: encode_payload_def extend_all_Inr)
  then show ?thesis
    by (auto simp add: and_then_eq_Inr map_result_eq_Inr extend_all_sizes)
qed

lemma encode_sections:
  "UADPNetworkMessage_encode rt self = Inr out \<longleftrightarrow>
     (\<exists>b0 b1 b2 b3 body.
        append_byte (nm_flags self) = Inr b0
        \<and> encode_publisher_id (nm_publisher_id self) = Inr b1
        \<and> encode_group_header self = Inr b2
        \<and> encode_payload_header self = Inr b3
        \<and> encode_payload rt self = Inr body
        \<and> out = b0 @ b1 @ b2 @ b3 @ body)"
  by (auto simp add: UADPNetworkMessage_encode_def and_then_eq_Inr)

lemma ds_example2_encode:
  "UADPDataSetMessage_encode rt ds_example2 = Inr [0x0B, 0x00, 0x01, 0x00, 0x01]"
proof -
  have f: "ds_sequence_number ds_example2 = 1"
    "ds_fields ds_example2 = [(''Status'', PBool True, BOOLEAN)]"
    "ds_field_encoding ds_example2 = FIELD_ENCODING_RAWDATA"
    by (simp_all add: ds_example2_def add_field_def UADPDataSetMessage_def)
  have v: "encode_value rt (PBool True) (Some BOOLEAN) = Inr [0x01]"
    by (simp add: encode_value_def encoders_def type_ids encode_boolean_def pack_int_def
        ifmt_min_def ifmt_max_def)
  have s: "pack_int U16 (PInt 1) = Inr [1, 0]"
    by (simp add: pack_int_def ifmt_min_def ifmt_max_def)
  show ?thesis
    by (simp add: UADPDataSetMessage_encode_def Let_def f s v append_byte_def
        VALID_def FIELD_ENCODING_RAWDATA_def SEQUENCE_NUMBER_ENABLED_def)
qed

lemma nm_example2_messages: "nm_dataset_messages nm_example2 = [ds_example, ds_example2]"
  by (simp add: nm_example2_def add_dataset_message_def nm_example_fields)

text \<open>
  C3. If a NetworkMessage holds exactly one DataSet message, the payload is that
  message's encoding, with no length prefix. If it holds two or more, the payload is
  the 16-bit little-endian byte lengths of the encoded messages, in message order,
  followed by the encoded messages in the same order (and the payload exists exactly
  when every message encodes and no encoding is longer than 65535 bytes). The payload
  is the last section of the encoded NetworkMessage, after the flags, the publisher
  id, the group header and the payload header.
\<close>

theorem payload_framing:
  "(nm_dataset_messages self = [m] \<longrightarrow>
      encode_payload rt self = UADPDataSetMessage_encode rt m)
   \<and> (2 \<le> length (nm_dataset_messages self) \<longrightarrow>
        (encode_payload rt self = Inr body \<longleftrightarrow>
           (\<exists>encs. map (UADPDataSetMessage_encode rt) (nm_dataset_messages self) = map Inr encs
              \<and> (\<forall>e \<in> set encs. length e \<le> 65535)
              \<and> body = concat (map (\<lambda>e. le_bytes 2 (length e)) encs) @ concat encs)))
   \<and> (UADPNetworkMessage_encode rt self = Inr out \<longleftrightarrow>
        (\<exists>b0 b1 b2 b3 payload.
           append_byte (nm_flags self) = Inr b0
           \<and> encode_publisher_id (nm_publisher_id self) = Inr b1
           \<and> encode_group_header self = Inr b2
           \<and> encode_payload_header self = Inr b3
           \<and> encode_payload rt self = Inr payload
           \<and> out = b0 @ b1 @ b2 @ b3 @ payload))"
  using encode_payload_single [of self m rt] encode_payload_multi [of self rt body]
    encode_sections [of rt self out]
  by blast

theorem payload_framing_witness:
  "nm_dataset_messages nm_example = [ds_example]
   \<and> encode_payload rt0 nm_example = Inr [0x0B, 0x00, 0x01, 0x00, 0x3C]
   \<and> nm_dataset_messages nm_example2 = [ds_example, ds_example2]
   \<and> encode_payload rt0 nm_example2 =
       Inr ([5, 0] @ [5, 0] @ [0x0B, 0x00, 0x01, 0x00, 0x3C] @ [0x0B, 0x00, 0x01, 0x00, 0x01])"
proof -
  have one: "nm_dataset_messages nm_example = [ds_example]"
    by (simp add: nm_example_fields)
  have a: "encode_payload rt0 nm_example = Inr [0x0B, 0x00, 0x01, 0x00, 0x3C]"
    using payload_framing [of nm_example ds_example rt0] one
    by (simp add: ds_example_encode)
  let ?encs = "[0x0B, 0x00, 0x01, 0x00, 0x3C] # [0x0B, 0x00, 0x01, 0x00, 0x01 :: byte] # []"
  let ?body = "[5, 0] @ [5, 0] @ [0x0B, 0x00, 0x01, 0x00, 0x3C] @ [0x0B, 0x00, 0x01, 0x00, 0x01 :: byte]"
  have two: "2 \<le> length (nm_dataset_messages nm_example2)"
    by (simp add: nm_example2_messages)
  have e: "map (UADPDataSetMessage_encode rt0) (nm_dataset_messages nm_example2) = map Inr ?encs
      \<and> (\<forall>e \<in> set ?encs. length e \<le> 65535)
      \<and> ?body = concat (map (\<lambda>e. le_bytes 2 (length e)) ?encs) @ concat ?encs"
    by (simp add: nm_example2_messages ds_example_encode ds_example2_encode)
  have b: "encode_payload rt0 nm_example2 = Inr ?body"
    using payload_framing [of nm_example2 ds_example rt0 ?body] two e by blast
  show ?thesis using one a b by (simp add: nm_example2_messages)
qed


section \<open>Truncated buffers\<close>

text \<open>A fixed-width read that does not fit in the buffer raises.\<close>

lemma unpack_int_short:
  "length data < offset + ifmt_size f \<Longrightarrow> unpack_int f data offset = Inl StructError"
  by (simp add: unpack_int_def)

lemma unpack_float_short:
  "length data < offset + ffmt_size f \<Longrightarrow> unpack_float f data offset = Inl StructError"
  by (simp add: unpack_float_def)

lemma decode_int32_short:
  "length data < offset + 4 \<Longrightarrow> decode_int32 data offset = Inl StructError"
  by (simp add: decode_int32_def unpack_int_short)

lemma decode_string_short_prefix:
  "length data < offset + 4 \<Longrightarrow> decode_string data offset = Inl StructError"
  by (simp add: decode_string_def unpack_int_short)

lemma unpack_i32_5: "unpack_int I32 [5, 0, 0, 0, 0x41, 0x42] 0 = Inr 5"
  by (simp add: unpack_int_def)

lemma utf8_decode_AB: "utf8_decode [0x41, 0x42] = Inr ''AB''"
  by (simp add: utf8_decode_def char_of_def bit_Suc_0_iff)

text \<open>
  C6. The buffer \<open>05 00 00 00 41 42\<close> announces a payload of five bytes and holds
  two. \<open>decode_string\<close> and \<open>decode_bytestring\<close> do not fail on it: they return the
  two bytes that are there, with the offset 9, three bytes past the end of the buffer.
\<close>

theorem truncated_payload_decodes:
  "length [5, 0, 0, 0, 0x41, 0x42 :: byte] = 6
   \<and> unpack_int I32 [5, 0, 0, 0, 0x41, 0x42] 0 = Inr 5
   \<and> decode_string [5, 0, 0, 0, 0x41, 0x42] 0 = Inr (PStr ''AB'', 9)
   \<and> decode_bytestring [5, 0, 0, 0, 0x41, 0x42] 0 = Inr (PBytes [0x41, 0x42], 9)
   \<and> decode_value [5, 0, 0, 0, 0x41, 0x42] STRING 0 = Inr (PStr ''AB'', 9)
   \<and> decode_value [5, 0, 0, 0, 0x41, 0x42] BYTESTRING 0 = Inr (PBytes [0x41, 0x42], 9)"
proof -
  have s: "decode_string [5, 0, 0, 0, 0x41, 0x42] 0 = Inr (PStr ''AB'', 9)"
    by (simp add: decode_string_def unpack_i32_5 utf8_decode_AB)
  have b: "decode_bytestring [5, 0, 0, 0, 0x41, 0x42] 0 = Inr (PBytes [0x41, 0x42], 9)"
    by (simp add: decode_bytestring_def unpack_i32_5)
  show ?thesis
    by (simp add: unpack_i32_5 s b decode_value_def decoders_def type_ids)
qed


section \<open>Minimal framing\<close>

lemma pack_i32_small:
  "n \<le> 16 \<Longrightarrow> pack_int I32 (PInt (int n)) = Inr (le_bytes 4 n)"
  by (simp add: pack_int_def ifmt_min_def ifmt_max_def del: le_bytes_numeral)

lemma minimal_publisher_id_string:
  assumes "\<not> is_small_int publisher_id"
  shows "minimal_publisher_id rt publisher_id =
           Inr ([0x04] @
                le_bytes 4 (length (take 16 (utf8_encode (py_str rt publisher_id)))) @
                take 16 (utf8_encode (py_str rt publisher_id)))"
proof -
  have "length (take 16 (utf8_encode (py_str rt publisher_id))) \<le> 16" by simp
  then have "pack_int I32 (PInt (int (length (take 16 (utf8_encode (py_str rt publisher_id)))))) =
      Inr (le_bytes 4 (length (take 16 (utf8_encode (py_str rt publisher_id)))))"
    by (rule pack_i32_small)
  with assms show ?thesis
    by (simp add: minimal_publisher_id_def PUBLISHER_ID_STRING_def append_byte_def Let_def
        del: le_bytes_numeral)
qed

lemma minimal_publisher_id_byte:
  assumes "is_small_int publisher_id" and "minimal_publisher_id rt publisher_id = Inr bs"
  shows "\<exists>b. bs = [0x00, b]"
proof -
  obtain i where i: "py_index publisher_id = Inr i"
    using assms(1) by (cases publisher_id) simp_all
  from assms(2) show ?thesis
    by (auto simp add: minimal_publisher_id_def assms(1) PUBLISHER_ID_BYTE_def i
        append_byte_def split: if_splits)
qed

lemma not_small_int_iff:
  "\<not> is_small_int publisher_id \<longleftrightarrow>
     (\<forall>i. publisher_id = PInt i \<longrightarrow> 255 < i) \<and> (\<forall>b. publisher_id \<noteq> PBool b)"
  by (cases publisher_id) auto

lemma encode_minimal_unfold:
  "UADPNetworkMessage_encode_minimal rt self =
     and_then (minimal_publisher_id rt (nm_publisher_id self)) (\<lambda>b1.
     and_then (minimal_body rt self) (\<lambda>b2. Inr ([0x11] @ b1 @ b2)))"
  by (simp add: UADPNetworkMessage_encode_minimal_def VERSION_def PUBLISHER_ID_ENABLED_def
      append_byte_def)

lemma encode_minimal_tag:
  assumes "UADPNetworkMessage_encode_minimal rt self = Inr out"
  shows "out ! 1 = 0x00 \<or> out ! 1 = 0x04"
proof -
  from assms obtain b1 b2 where
    b1: "minimal_publisher_id rt (nm_publisher_id self) = Inr b1" and
    out: "out = [0x11] @ b1 @ b2"
    by (auto simp add: encode_minimal_unfold and_then_eq_Inr)
  show ?thesis
  proof (cases "is_small_int (nm_publisher_id self)")
    case True
    from minimal_publisher_id_byte [OF True b1] out show ?thesis by auto
  next
    case False
    from minimal_publisher_id_string [OF False, of rt] b1 out show ?thesis by auto
  qed
qed

lemma str_int_300: "str_int 300 = ''300''"
proof -
  have "str_nat 3 = ''3''"
    by (simp add: str_nat.simps [of 3] char_of_def bit_Suc_0_iff)
  then have "str_nat 30 = ''30''"
    by (simp add: str_nat.simps [of 30] char_of_def bit_Suc_0_iff)
  then have "str_nat 300 = ''300''"
    by (simp add: str_nat.simps [of 300] char_of_def bit_Suc_0_iff)
  then show ?thesis by (simp add: str_int_def)
qed

lemma minimal_body_empty: "minimal_body rt (UADPNetworkMessage p g) = Inr [0x00]"
  by (simp add: minimal_body_def UADPNetworkMessage_def append_byte_def)

text \<open>
  C10, as amended. In minimal framing, for every publisher id that is not an integer
  (or bool) of at most 255 (a string, an integer above 255, None, any other object),
  \<open>encode_minimal\<close> emits the flags byte \<open>0x11\<close>, the String selector \<open>0x04\<close>, and the
  UTF-8 bytes of \<open>str(publisher_id)\<close> cut to at most 16 bytes, prefixed by their
  length in four little-endian bytes; and for every message the selector byte that
  minimal framing emits is \<open>0x00\<close> or \<open>0x04\<close>, never the UInt16 or UInt32 selector.
\<close>

theorem minimal_publisher_id_framing:
  assumes "\<forall>i. nm_publisher_id self = PInt i \<longrightarrow> 255 < i"
    and "\<forall>b. nm_publisher_id self \<noteq> PBool b"
  shows "UADPNetworkMessage_encode_minimal rt self =
           and_then (minimal_body rt self) (\<lambda>body.
             Inr ([0x11] @ [0x04] @
                  le_bytes 4 (length (take 16 (utf8_encode (py_str rt (nm_publisher_id self))))) @
                  take 16 (utf8_encode (py_str rt (nm_publisher_id self))) @ body))
         \<and> length (take 16 (utf8_encode (py_str rt (nm_publisher_id self)))) \<le> 16
         \<and> (UADPNetworkMessage_encode_minimal rt other = Inr out \<longrightarrow>
              out ! 1 \<noteq> 0x01 \<and> out ! 1 \<noteq> 0x02)"
proof -
  have n: "\<not> is_small_int (nm_publisher_id self)"
    using assms by (simp add: not_small_int_iff)
  have t: "out ! 1 \<noteq> 0x01 \<and> out ! 1 \<noteq> 0x02"
    if "UADPNetworkMessage_encode_minimal rt other = Inr out"
    using encode_minimal_tag [OF that] by auto
  show ?thesis
    using t by (simp add: encode_minimal_unfold minimal_publisher_id_string [OF n]
        del: le_bytes_numeral)
qed

theorem minimal_publisher_id_framing_witness:
  "nm_publisher_id (UADPNetworkMessage (PInt 300) 1) = PInt 300 \<and> (255 :: int) < 300 \<and>
   UADPNetworkMessage_encode_minimal rt0 (UADPNetworkMessage (PInt 300) 1) =
     Inr ([0x11] @ [0x04] @ [3, 0, 0, 0] @ [0x33, 0x30, 0x30] @ [0x00]) \<and>
   encode_publisher_id (PInt 300) = Inr ([0x01] @ [0x2C, 0x01])"
proof -
  have p: "nm_publisher_id (UADPNetworkMessage (PInt 300) 1) = PInt 300"
    by (simp add: UADPNetworkMessage_def)
  have h: "\<forall>i. nm_publisher_id (UADPNetworkMessage (PInt 300) 1) = PInt i \<longrightarrow> 255 < i"
    "\<forall>b. nm_publisher_id (UADPNetworkMessage (PInt 300) 1) \<noteq> PBool b"
    by (simp_all add: p)
  have u: "utf8_encode ''300'' = [0x33, 0x30, 0x30]"
    by (simp add: utf8_encode_def)
  have f: "encode_publisher_id (PInt 300) = Inr ([0x01] @ [0x2C, 0x01])"
    by (simp add: PUBLISHER_ID_UINT16_def append_byte_def pack_int_def ifmt_min_def ifmt_max_def)
  from minimal_publisher_id_framing [OF h, of rt0]
  have "UADPNetworkMessage_encode_minimal rt0 (UADPNetworkMessage (PInt 300) 1) =
     Inr ([0x11] @ [0x04] @ [3, 0, 0, 0] @ [0x33, 0x30, 0x30] @ [0x00])"
    by (simp add: p str_int_300 u minimal_body_empty)
  with p f show ?thesis by simp
qed

text \<open>
  The claim as stated fails at the publisher id -1, which is not an integer in the
  range 0..255: the test \<^verbatim>\<open>publisher_id <= 255\<close> sends it to the Byte branch
  (where \<^verbatim>\<open>buffer.append(-1)\<close> raises), so the output is not the String selector
  followed by the length-prefixed text "-1" that the claim describes.
\<close>

theorem minimal_negative_id_counterexample:
  "\<not> (0 \<le> (- 1 :: int) \<and> (- 1 :: int) \<le> 255) \<and>
   is_small_int (PInt (- 1)) \<and>
   UADPNetworkMessage_encode_minimal rt0 (UADPNetworkMessage (PInt (- 1)) 1) \<noteq>
     Inr ([0x11] @ [0x04] @ [2, 0, 0, 0] @ [0x2D, 0x31] @ [0x00])"
  by (simp add: encode_minimal_unfold UADPNetworkMessage_def minimal_publisher_id_def
      PUBLISHER_ID_BYTE_def append_byte_def)


section \<open>Floats: widening to binary64 and back\<close>

lemma fields_div_mod:
  fixes A B :: nat
  assumes "m < A" and "ef < B"
  shows "(s * (B * A) + ef * A + m) div A = s * B + ef"
    and "(s * (B * A) + ef * A + m) mod A = m"
    and "(s * B + ef) mod B = ef"
    and "(s * (B * A) + ef * A + m) div (B * A) = s"
proof -
  have 1: "s * (B * A) + ef * A + m = (s * B + ef) * A + m"
    by (simp add: algebra_simps)
  show d: "(s * (B * A) + ef * A + m) div A = s * B + ef"
    unfolding 1 using assms(1) by simp
  show "(s * (B * A) + ef * A + m) mod A = m"
    unfolding 1 using assms(1) by simp
  show "(s * B + ef) mod B = ef"
    using assms(2) by simp
  have "ef * A + m < B * A"
  proof -
    have "ef * A + m < ef * A + A" using assms(1) by simp
    also have "\<dots> = (ef + 1) * A" by simp
    also have "\<dots> \<le> B * A" using assms(2) by (intro mult_le_mono1) simp
    finally show ?thesis .
  qed
  then have z: "(ef * A + m) div (B * A) = 0" by simp
  have "B * A \<noteq> 0" using assms by auto
  then have "(s * (B * A) + (ef * A + m)) div (B * A) = s + (ef * A + m) div (B * A)"
    by (rule div_mult_self3)
  with z show "(s * (B * A) + ef * A + m) div (B * A) = s"
    by (simp add: add.assoc)
qed

lemma float_decode_fields:
  assumes "m < 2 ^ M" and "ef < 2 ^ E"
  shows "float_decode E M (of_bool s * 2 ^ (E + M) + ef * 2 ^ M + m) =
           (if ef = 2 ^ E - 1 then (if m = 0 then FInf s else FNaN)
            else if ef = 0 then FFin s m (1 - (2 ^ (E - 1) - 1) - int M)
            else FFin s (2 ^ M + m) (int ef - (2 ^ (E - 1) - 1) - int M))"
proof -
  let ?n = "of_bool s * 2 ^ (E + M) + ef * 2 ^ M + m"
  have n: "?n = of_bool s * (2 ^ E * 2 ^ M) + ef * 2 ^ M + m"
    by (simp add: power_add)
  have a: "?n div 2 ^ M = of_bool s * 2 ^ E + ef" "?n mod 2 ^ M = m"
    "?n div 2 ^ (E + M) = of_bool s"
    unfolding n using fields_div_mod [OF assms, of "of_bool s"] by (simp_all add: power_add)
  have b: "(of_bool s * 2 ^ E + ef) mod 2 ^ E = ef"
    using fields_div_mod(3) [OF assms, of "of_bool s"] by simp
  have c: "((of_bool s :: nat) mod 2 = 1) = s" by simp
  show ?thesis
    unfolding float_decode_def Let_def a b c by simp
qed

lemma bit_length_bounds:
  "2 ^ k \<le> n \<Longrightarrow> n < 2 ^ Suc k \<Longrightarrow> bit_length n = Suc k"
proof (induction k arbitrary: n)
  case 0
  then have "n = Suc 0" by simp
  then show ?case by (simp add: bit_length.simps [of "Suc 0"] bit_length.simps [of 0])
next
  case (Suc k)
  define p :: nat where "p = 2 ^ k"
  have p: "0 < p" "2 * p \<le> n" "n < 4 * p"
    using Suc.prems by (simp_all add: p_def)
  have "p \<le> n div 2" "n div 2 < 2 * p" using p by arith+
  then have "bit_length (n div 2) = Suc k" by (intro Suc.IH) (simp_all add: p_def)
  moreover have "n \<noteq> 0" using p by arith
  ultimately show ?case by (simp add: bit_length.simps [of n])
qed

lemma bit_length_exists:
  "0 < (n :: nat) \<Longrightarrow> \<exists>k. 2 ^ k \<le> n \<and> n < 2 ^ Suc k"
proof (induction n rule: less_induct)
  case (less n)
  show ?case
  proof (cases "n = 1")
    case True
    then show ?thesis by (intro exI [of _ 0]) simp
  next
    case False
    with less.prems have "0 < n div 2" "n div 2 < n" by simp_all
    with less.IH obtain k where k: "2 ^ k \<le> n div 2" "n div 2 < 2 ^ Suc k" by blast
    define p :: nat where "p = 2 ^ k"
    have "p \<le> n div 2" "n div 2 < 2 * p" using k by (simp_all add: p_def)
    then have "2 * p \<le> n \<and> n < 4 * p" by arith
    then have "2 ^ Suc k \<le> n \<and> n < 2 ^ Suc (Suc k)" by (simp add: p_def)
    then show ?thesis by blast
  qed
qed


lemma widen_normal:
  assumes "0 < ef" and "ef < 255" and "m < 2 ^ 23"
  shows "float_encode 11 52 (FFin s (2 ^ 23 + m) (int ef - 150)) =
           of_bool s * 2 ^ 63 + (ef + 896) * 2 ^ 52 + m * 2 ^ 29"
proof -
  have bl: "bit_length (8388608 + m) = 24"
    using bit_length_bounds [of 23 "2 ^ 23 + m"] assms by simp
  have rs: "round_shift (2 ^ 23 + m) 29 = (2 ^ 23 + m) * 2 ^ 29"
    by (simp add: round_shift_def)
  have bd: "nat (int ef + 895) = ef + 895" by simp
  have mn: "min ((ef + 895) * 2 ^ 52 + (2 ^ 23 + m) * 2 ^ 29) (2047 * 2 ^ 52) =
      (ef + 896) * 2 ^ 52 + m * 2 ^ 29"
    using assms by simp
  have "float_encode 11 52 (FFin s (2 ^ 23 + m) (int ef - 150)) =
      of_bool s * 2 ^ 63 +
      min (nat (int ef + 895) * 2 ^ 52 + round_shift (2 ^ 23 + m) 29) (2047 * 2 ^ 52)"
    using assms by (simp add: float_encode_def Let_def bl max_def)
  then show ?thesis by (simp only: bd rs mn)
qed

lemma narrow_normal:
  assumes "0 < ef" and "ef < 255" and "m < 2 ^ 23"
  shows "float_encode 8 23 (FFin s (2 ^ 52 + m * 2 ^ 29) (int ef - 179)) =
           of_bool s * 2 ^ 31 + ef * 2 ^ 23 + m"
proof -
  have bl: "bit_length (4503599627370496 + m * 536870912) = 53"
    using bit_length_bounds [of 52 "2 ^ 52 + m * 2 ^ 29"] assms by simp
  have q: "(4503599627370496 + m * 536870912) div 536870912 = 8388608 + m"
    "(4503599627370496 + m * 536870912) mod 536870912 = 0"
    by simp_all
  have rs: "round_shift (4503599627370496 + m * 536870912) (- 29) = 8388608 + m"
    by (simp add: round_shift_def Let_def q)
  have bd: "nat (int ef - 1) = ef - 1" by simp
  have mn: "min ((ef - 1) * 8388608 + (8388608 + m)) 2139095040 = ef * 8388608 + m"
    using assms by (cases ef) simp_all
  have "float_encode 8 23 (FFin s (2 ^ 52 + m * 2 ^ 29) (int ef - 179)) =
      of_bool s * 2147483648 +
      min (nat (int ef - 1) * 8388608 +
           round_shift (4503599627370496 + m * 536870912) (- 29)) 2139095040"
  proof (cases "ef = 1")
    case True
    then show ?thesis by (simp add: float_encode_def Let_def bl)
  next
    case False
    with assms have "1 < ef" by simp
    then show ?thesis by (simp add: float_encode_def Let_def bl max_def)
  qed
  then show ?thesis by (simp only: bd rs mn) simp
qed

lemma float_encode_FFin:
  assumes "sig \<noteq> 0" and "bit_length sig = n"
    and "bias = 2 ^ (E - 1) - 1"
    and "max (ex + int n - 1) (1 - bias) = t"
    and "round_shift sig (ex - (t - int M)) = x"
    and "nat (t + bias - 1) = p"
    and "p * 2 ^ M + x \<le> (2 ^ E - 1) * 2 ^ M"
  shows "float_encode E M (FFin s sig ex) = of_bool s * 2 ^ (E + M) + (p * 2 ^ M + x)"
  using assms by (auto simp add: float_encode_def Let_def min_def)

lemma round_shift_left: "0 \<le> k \<Longrightarrow> round_shift sig k = sig * 2 ^ nat k"
  by (simp add: round_shift_def)

lemma round_shift_exact:
  assumes "k < 0" and "sig = q * 2 ^ nat (- k)"
  shows "round_shift sig k = q"
proof -
  have "(0 :: nat) < 2 ^ (nat (- k) - 1)" by simp
  then show ?thesis using assms by (simp add: round_shift_def Let_def)
qed

lemma subnormal_scaled:
  fixes m :: nat
  assumes "2 ^ k \<le> m" and "m < 2 ^ Suc k" and "k \<le> 22"
  shows "2 ^ 52 \<le> m * 2 ^ (52 - k)" and "m * 2 ^ (52 - k) < 2 ^ 53"
proof -
  have e: "(2 :: nat) ^ 52 = 2 ^ k * 2 ^ (52 - k)" "(2 :: nat) ^ 53 = 2 ^ Suc k * 2 ^ (52 - k)"
    using assms(3) by (simp_all add: power_add [symmetric] del: power_Suc)
  show "2 ^ 52 \<le> m * 2 ^ (52 - k)"
    unfolding e using assms(1) by (rule mult_le_mono1)
  show "m * 2 ^ (52 - k) < 2 ^ 53"
    unfolding e using assms(2) by (intro mult_strict_right_mono) simp_all
qed

lemma widen_subnormal:
  assumes "2 ^ k \<le> m" and "m < 2 ^ Suc k" and "k \<le> 22"
  shows "float_encode 11 52 (FFin s m (- 149)) =
           of_bool s * 2 ^ 63 + (k + 874) * 2 ^ 52 + (m * 2 ^ (52 - k) - 2 ^ 52)"
proof -
  have "(0 :: nat) < 2 ^ k" by simp
  with assms(1) have m0: "m \<noteq> 0" by linarith
  have bl: "bit_length m = Suc k" using assms(1,2) by (rule bit_length_bounds)
  have t: "max (- 149 + int (Suc k) - 1) (1 - 1023) = int k - 149" by simp
  have x: "round_shift m (- 149 - (int k - 149 - int 52)) = m * 2 ^ (52 - k)"
    using assms(3) by (simp add: round_shift_left nat_diff_distrib')
  have p: "nat (int k - 149 + 1023 - 1) = k + 873" by simp
  note sc = subnormal_scaled [OF assms]
  have le: "(k + 873) * 2 ^ 52 + m * 2 ^ (52 - k) \<le> (2 ^ 11 - 1) * 2 ^ 52"
  proof -
    have "(k + 873) * 2 ^ 52 + m * 2 ^ (52 - k) \<le> (k + 873) * 2 ^ 52 + 2 ^ 53"
      using sc(2) by simp
    also have "\<dots> = (k + 875) * 2 ^ 52" by simp
    also have "\<dots> \<le> 2047 * 2 ^ 52" using assms(3) by (intro mult_le_mono1) simp
    finally show ?thesis by simp
  qed
  have "float_encode 11 52 (FFin s m (- 149)) =
      of_bool s * 2 ^ (11 + 52) + ((k + 873) * 2 ^ 52 + m * 2 ^ (52 - k))"
    using m0 bl _ t x p le by (rule float_encode_FFin) simp
  also have "(k + 873) * 2 ^ 52 + m * 2 ^ (52 - k) =
      (k + 874) * 2 ^ 52 + (m * 2 ^ (52 - k) - 2 ^ 52)"
    using sc(1) by simp
  finally show ?thesis by (simp add: add.assoc)
qed

lemma narrow_subnormal:
  assumes "2 ^ k \<le> m" and "m < 2 ^ Suc k" and "k \<le> 22"
  shows "float_encode 8 23 (FFin s (m * 2 ^ (52 - k)) (int k - 201)) = of_bool s * 2 ^ 31 + m"
proof -
  note sc = subnormal_scaled [OF assms]
  have "(0 :: nat) < 2 ^ 52" by simp
  with sc(1) have m0: "m * 2 ^ (52 - k) \<noteq> 0" by linarith
  have bl: "bit_length (m * 2 ^ (52 - k)) = Suc 52" using sc by (intro bit_length_bounds) simp_all
  have t: "max (int k - 201 + int (Suc 52) - 1) (1 - 127) = - 126" using assms(3) by simp
  have x: "round_shift (m * 2 ^ (52 - k)) (int k - 201 - (- 126 - int 23)) = m"
  proof (rule round_shift_exact)
    show "int k - 201 - (- 126 - int 23) < 0" using assms(3) by simp
    have "nat (- (int k - 201 - (- 126 - int 23))) = 52 - k" using assms(3) by simp
    then show "m * 2 ^ (52 - k) = m * 2 ^ nat (- (int k - 201 - (- 126 - int 23)))" by simp
  qed
  have p: "nat (- 126 + 127 - 1) = 0" by simp
  have le: "0 * 2 ^ 23 + m \<le> (2 ^ 8 - 1) * 2 ^ 23" using assms(2,3)
  proof -
    have "m < 2 ^ Suc k" by (rule assms(2))
    also have "\<dots> \<le> 2 ^ 23" using assms(3) by (intro power_increasing) simp_all
    finally show ?thesis by simp
  qed
  have "float_encode 8 23 (FFin s (m * 2 ^ (52 - k)) (int k - 201)) =
      of_bool s * 2 ^ (8 + 23) + (0 * 2 ^ 23 + m)"
    using m0 bl _ t x p le by (rule float_encode_FFin) simp
  then show ?thesis by simp
qed


lemma decode32_fields:
  assumes "m < 2 ^ 23" and "ef < 256"
  shows "float_decode 8 23 (of_bool s * 2 ^ 31 + ef * 2 ^ 23 + m) =
           (if ef = 255 then (if m = 0 then FInf s else FNaN)
            else if ef = 0 then FFin s m (- 149)
            else FFin s (2 ^ 23 + m) (int ef - 150))"
  using float_decode_fields [of m 23 ef 8 s] assms by simp

lemma decode64_fields:
  assumes "m < 2 ^ 52" and "ef < 2048"
  shows "float_decode 11 52 (of_bool s * 2 ^ 63 + ef * 2 ^ 52 + m) =
           (if ef = 2047 then (if m = 0 then FInf s else FNaN)
            else if ef = 0 then FFin s m (- 1074)
            else FFin s (2 ^ 52 + m) (int ef - 1075))"
  using float_decode_fields [of m 52 ef 11 s] assms by simp

lemma fields64_less:
  fixes ef m :: nat
  assumes "m < 2 ^ 52" and "ef < 2048"
  shows "of_bool s * 2 ^ 63 + ef * 2 ^ 52 + m < 2 ^ 64"
proof -
  have "ef * 2 ^ 52 \<le> 2047 * 2 ^ 52" using assms(2) by (intro mult_le_mono1) simp
  moreover have "(of_bool s :: nat) * 2 ^ 63 \<le> 2 ^ 63" by simp
  ultimately show ?thesis using assms(1) by simp
qed

lemma f32_fields:
  fixes n :: nat
  assumes "n < 2 ^ 32"
  shows "\<exists>s ef m. ef < 256 \<and> m < 2 ^ 23 \<and> n = of_bool s * 2 ^ 31 + ef * 2 ^ 23 + m"
proof -
  define q where "q = n div 2 ^ 23"
  have q: "q < 512" using assms by (simp add: q_def less_mult_imp_div_less)
  have n: "n = q * 2 ^ 23 + n mod 2 ^ 23" by (simp add: q_def)
  have "q div 256 < 2" using q by simp
  then have s: "q div 256 = of_bool (q div 256 = 1)" by auto
  have "q = (q div 256) * 256 + q mod 256" by simp
  with s have "q = of_bool (q div 256 = 1) * 256 + q mod 256" by simp
  with n have "n = of_bool (q div 256 = 1) * 2 ^ 31 + (q mod 256) * 2 ^ 23 + n mod 2 ^ 23"
    by (simp add: algebra_simps)
  moreover have "q mod 256 < 256" "n mod 2 ^ 23 < 2 ^ 23" by simp_all
  ultimately show ?thesis by blast
qed

lemma widen_then_narrow:
  fixes ef m :: nat
  assumes "ef < 256" and "m < 2 ^ 23" and "\<not> (ef = 255 \<and> m \<noteq> 0)"
  shows "float_encode 8 23 (float_decode 11 52 (float_encode 11 52
           (float_decode 8 23 (of_bool s * 2 ^ 31 + ef * 2 ^ 23 + m)))) =
         of_bool s * 2 ^ 31 + ef * 2 ^ 23 + m
         \<and> float_encode 11 52 (float_decode 8 23 (of_bool s * 2 ^ 31 + ef * 2 ^ 23 + m)) < 2 ^ 64"
proof -
  let ?n = "of_bool s * 2 ^ 31 + ef * 2 ^ 23 + m"
  note d32 = decode32_fields [OF assms(2,1), of s]
  consider (inf) "ef = 255" "m = 0" | (zero) "ef = 0" "m = 0" | (sub) "ef = 0" "0 < m"
    | (normal) "0 < ef" "ef < 255"
    using assms by linarith
  then show ?thesis
  proof cases
    case inf
    have w: "float_encode 11 52 (float_decode 8 23 ?n) = of_bool s * 2 ^ 63 + 2047 * 2 ^ 52 + 0"
      unfolding d32 using inf by (simp add: float_encode_def)
    have "float_decode 11 52 (of_bool s * 2 ^ 63 + 2047 * 2 ^ 52 + 0) = FInf s"
      by (subst decode64_fields) simp_all
    then show ?thesis
      unfolding w using inf fields64_less [of 0 2047 s] by (simp add: float_encode_def)
  next
    case zero
    have w: "float_encode 11 52 (float_decode 8 23 ?n) = of_bool s * 2 ^ 63 + 0 * 2 ^ 52 + 0"
      unfolding d32 using zero by (simp add: float_encode_def)
    have "float_decode 11 52 (of_bool s * 2 ^ 63 + 0 * 2 ^ 52 + 0) = FFin s 0 (- 1074)"
      by (subst decode64_fields) simp_all
    then show ?thesis
      unfolding w using zero fields64_less [of 0 0 s] by (simp add: float_encode_def)
  next
    case sub
    obtain k where k: "2 ^ k \<le> m" "m < 2 ^ Suc k"
      using bit_length_exists [OF sub(2)] by blast
    have k22: "k \<le> 22"
    proof (rule ccontr)
      assume "\<not> k \<le> 22"
      then have "(2 :: nat) ^ 23 \<le> 2 ^ k" by (intro power_increasing) simp_all
      with k(1) assms(2) show False by linarith
    qed
    note sc = subnormal_scaled [OF k k22]
    let ?m' = "m * 2 ^ (52 - k) - 2 ^ 52"
    have m': "?m' < 2 ^ 52" "2 ^ 52 + ?m' = m * 2 ^ (52 - k)" using sc by simp_all
    have e': "k + 874 < 2048" "k + 874 \<noteq> 2047" "k + 874 \<noteq> 0" using k22 by simp_all
    have w: "float_encode 11 52 (float_decode 8 23 ?n) =
        of_bool s * 2 ^ 63 + (k + 874) * 2 ^ 52 + ?m'"
      unfolding d32 using sub widen_subnormal [OF k k22, of s] by simp
    have "float_decode 11 52 (of_bool s * 2 ^ 63 + (k + 874) * 2 ^ 52 + ?m') =
        FFin s (2 ^ 52 + ?m') (int (k + 874) - 1075)"
      using decode64_fields [OF m'(1) e'(1), of s] e' by simp
    also have "\<dots> = FFin s (m * 2 ^ (52 - k)) (int k - 201)"
      unfolding m'(2) by simp
    finally have d: "float_decode 11 52 (of_bool s * 2 ^ 63 + (k + 874) * 2 ^ 52 + ?m') =
        FFin s (m * 2 ^ (52 - k)) (int k - 201)" .
    show ?thesis
      unfolding w d using sub narrow_subnormal [OF k k22, of s] fields64_less [OF m'(1) e'(1), of s]
      by simp
  next
    case normal
    have m': "m * 2 ^ 29 < 2 ^ 52" using assms(2) by simp
    have e': "ef + 896 < 2048" "ef + 896 \<noteq> 2047" "ef + 896 \<noteq> 0" using normal by simp_all
    have w: "float_encode 11 52 (float_decode 8 23 ?n) =
        of_bool s * 2 ^ 63 + (ef + 896) * 2 ^ 52 + m * 2 ^ 29"
      unfolding d32 using normal widen_normal [OF normal assms(2), of s] by simp
    have d: "float_decode 11 52 (of_bool s * 2 ^ 63 + (ef + 896) * 2 ^ 52 + m * 2 ^ 29) =
        FFin s (2 ^ 52 + m * 2 ^ 29) (int ef - 179)"
      using decode64_fields [OF m' e'(1), of s] e' by simp
    show ?thesis
      unfolding w d using narrow_normal [OF normal assms(2), of s] fields64_less [OF m' e'(1), of s]
      by simp
  qed
qed

lemma f32_val_NaN_fields:
  fixes ef m :: nat
  assumes "ef < 256" and "m < 2 ^ 23"
  shows "float_decode 8 23 (of_bool s * 2 ^ 31 + ef * 2 ^ 23 + m) = FNaN \<longleftrightarrow> ef = 255 \<and> m \<noteq> 0"
  unfolding decode32_fields [OF assms(2,1)] by simp

lemma f64_round_trip:
  assumes "f32_val w \<noteq> FNaN"
  shows "f64_to_f32 (f32_to_f64 w) = w" and "f32_to_f64 w < 2 ^ 64"
proof -
  have "unat w < 2 ^ 32" using unsigned_less [of w] by simp
  then obtain s ef m where f: "ef < 256" "m < 2 ^ 23"
    and n: "unat w = of_bool s * 2 ^ 31 + ef * 2 ^ 23 + m"
    using f32_fields by blast
  from assms have "\<not> (ef = 255 \<and> m \<noteq> 0)"
    unfolding f32_val_def n f32_val_NaN_fields [OF f] .
  from widen_then_narrow [OF f this, of s]
  have r: "float_encode 8 23 (float_decode 11 52 (f32_to_f64 w)) = unat w"
    and l: "f32_to_f64 w < 2 ^ 64"
    unfolding f32_to_f64_def f32_val_def n by simp_all
  show "f32_to_f64 w < 2 ^ 64" by (rule l)
  show "f64_to_f32 (f32_to_f64 w) = w"
    unfolding f64_to_f32_def f32_of_def r by simp
qed

section \<open>Scalar round trips\<close>

lemma le_nat_le_bytes: "le_nat (le_bytes k n) = n mod 256 ^ k"
proof (induction k arbitrary: n)
  case 0
  then show ?case by simp
next
  case (Suc k)
  have "unat (of_nat n :: byte) = n mod 256" by (simp add: unat_of_nat)
  then show ?case
    by (simp add: Suc.IH mod_mult2_eq del: le_bytes_numeral)
qed

lemma power_256: "(256 :: nat) ^ k = 2 ^ (8 * k)"
  by (simp add: power_mult)

lemma unpack_int_append:
  "length bs = ifmt_size f \<Longrightarrow>
   unpack_int f (bs @ rest) 0 =
     Inr (if ifmt_signed f \<and> 2 ^ (8 * ifmt_size f - 1) \<le> le_nat bs
          then int (le_nat bs) - 2 ^ (8 * ifmt_size f) else int (le_nat bs))"
  by (simp add: unpack_int_def Let_def)

lemma ifmt_size_pos: "0 < ifmt_size f"
  by (cases f) simp_all

lemma pack_int_in_range:
  assumes "ifmt_min f \<le> i" and "i \<le> ifmt_max f"
  shows "pack_int f (PInt i) = Inr (le_bytes (ifmt_size f) (nat (i mod 2 ^ (8 * ifmt_size f))))"
  using assms by (simp add: pack_int_def del: le_bytes_numeral)

lemma unpack_pack_int:
  assumes "ifmt_min f \<le> i" and "i \<le> ifmt_max f"
  shows "unpack_int f (le_bytes (ifmt_size f) (nat (i mod 2 ^ (8 * ifmt_size f))) @ rest) 0 = Inr i"
proof -
  define k where "k = ifmt_size f"
  define H :: int where "H = 2 ^ (8 * k - 1)"
  define n where "n = nat (i mod 2 ^ (8 * k))"
  have kpos: "0 < k" by (simp add: k_def ifmt_size_pos)
  then have "8 * k = Suc (8 * k - 1)" by simp
  then have "(2 :: int) ^ (8 * k) = 2 ^ Suc (8 * k - 1)" by simp
  then have P: "(2 :: int) ^ (8 * k) = 2 * H" by (simp add: H_def)
  have Hpos: "0 < H" by (simp add: H_def)
  have n_int: "int n = i mod (2 * H)"
    using Hpos by (simp add: n_def P)
  have "i mod (2 * H) < 2 * H" using Hpos by simp
  then have "int n < 2 ^ (8 * k)" using n_int P by simp
  then have "n < 2 ^ (8 * k)" by (metis of_nat_less_numeral_power_cancel_iff)
  then have ln: "le_nat (le_bytes k n) = n"
    by (simp add: le_nat_le_bytes power_256)
  have c: "(2 ^ (8 * k - 1) \<le> n) = (H \<le> int n)"
    unfolding H_def by (metis numeral_power_le_of_nat_cancel_iff)
  have r: "(if ifmt_signed f \<and> H \<le> int n then int n - 2 * H else int n) = i"
  proof (cases "ifmt_signed f")
    case True
    with assms have b: "- H \<le> i" "i < H"
      by (simp_all add: ifmt_min_def ifmt_max_def H_def k_def)
    show ?thesis
    proof (cases "0 \<le> i")
      case True
      with b have "i mod (2 * H) = i" by simp
      with b True \<open>ifmt_signed f\<close> show ?thesis by (simp add: n_int)
    next
      case False
      with b have "0 \<le> i + 2 * H" "i + 2 * H < 2 * H" by simp_all
      then have "(i + 2 * H) mod (2 * H) = i + 2 * H" by (rule mod_pos_pos_trivial)
      then have "i mod (2 * H) = i + 2 * H" by simp
      with b False \<open>ifmt_signed f\<close> show ?thesis by (simp add: n_int)
    qed
  next
    case False
    with assms have b: "0 \<le> i" "i < 2 * H"
      by (simp_all add: ifmt_min_def ifmt_max_def P [symmetric] k_def)
    then have "i mod (2 * H) = i" by simp
    with False show ?thesis by (simp add: n_int)
  qed
  have "unpack_int f (le_bytes k n @ rest) 0 =
      Inr (if ifmt_signed f \<and> 2 ^ (8 * k - 1) \<le> le_nat (le_bytes k n)
           then int (le_nat (le_bytes k n)) - 2 ^ (8 * k) else int (le_nat (le_bytes k n)))"
    unfolding k_def by (rule unpack_int_append) simp
  then show ?thesis
    unfolding ln c P r unfolding k_def n_def .
qed


lemma int_round_trip:
  assumes "int_in f v"
  shows "\<exists>bs i. v = PInt i \<and> pack_int f v = Inr bs \<and> length bs = ifmt_size f
           \<and> unpack_int f bs 0 = Inr i"
proof -
  from assms obtain i where v: "v = PInt i" and r: "ifmt_min f \<le> i" "i \<le> ifmt_max f"
    by (cases v) (simp_all add: int_in_def)
  let ?bs = "le_bytes (ifmt_size f) (nat (i mod 2 ^ (8 * ifmt_size f)))"
  have "pack_int f v = Inr ?bs" unfolding v using r by (rule pack_int_in_range)
  moreover have "unpack_int f ?bs 0 = Inr i" using unpack_pack_int [OF r, of "[]"] by simp
  ultimately show ?thesis using v by (intro exI [of _ ?bs] exI [of _ i]) simp
qed

lemma round_trip_sbyte:
  assumes "int_in I8 v"
  shows "\<exists>bs. encode_value rt v (Some SBYTE) = Inr bs \<and> length bs = 1
           \<and> decode_value bs SBYTE 0 = Inr (v, 1)"
proof -
  from int_round_trip [OF assms] obtain bs i where
    b: "v = PInt i" "pack_int I8 v = Inr bs" "length bs = ifmt_size I8"
    "unpack_int I8 bs 0 = Inr i"
    by blast
  have "encode_value rt v (Some SBYTE) = Inr bs"
    using b(2) by (simp add: encode_value_def encoders_def type_ids encode_sbyte_def)
  moreover have "decode_value bs SBYTE 0 = Inr (v, 1)"
    using b(1,4) by (simp add: decode_value_def decoders_def type_ids decode_sbyte_def)
  ultimately show ?thesis using b(3) by simp
qed

lemma round_trip_byte:
  assumes "int_in U8 v"
  shows "\<exists>bs. encode_value rt v (Some BYTE) = Inr bs \<and> length bs = 1
           \<and> decode_value bs BYTE 0 = Inr (v, 1)"
proof -
  from int_round_trip [OF assms] obtain bs i where
    b: "v = PInt i" "pack_int U8 v = Inr bs" "length bs = ifmt_size U8"
    "unpack_int U8 bs 0 = Inr i"
    by blast
  have "encode_value rt v (Some BYTE) = Inr bs"
    using b(2) by (simp add: encode_value_def encoders_def type_ids encode_byte_def)
  moreover have "decode_value bs BYTE 0 = Inr (v, 1)"
    using b(1,4) by (simp add: decode_value_def decoders_def type_ids decode_byte_def)
  ultimately show ?thesis using b(3) by simp
qed

lemma round_trip_int16:
  assumes "int_in I16 v"
  shows "\<exists>bs. encode_value rt v (Some INT16) = Inr bs \<and> length bs = 2
           \<and> decode_value bs INT16 0 = Inr (v, 2)"
proof -
  from int_round_trip [OF assms] obtain bs i where
    b: "v = PInt i" "pack_int I16 v = Inr bs" "length bs = ifmt_size I16"
    "unpack_int I16 bs 0 = Inr i"
    by blast
  have "encode_value rt v (Some INT16) = Inr bs"
    using b(2) by (simp add: encode_value_def encoders_def type_ids encode_int16_def)
  moreover have "decode_value bs INT16 0 = Inr (v, 2)"
    using b(1,4) by (simp add: decode_value_def decoders_def type_ids decode_int16_def)
  ultimately show ?thesis using b(3) by simp
qed

lemma round_trip_uint16:
  assumes "int_in U16 v"
  shows "\<exists>bs. encode_value rt v (Some UINT16) = Inr bs \<and> length bs = 2
           \<and> decode_value bs UINT16 0 = Inr (v, 2)"
proof -
  from int_round_trip [OF assms] obtain bs i where
    b: "v = PInt i" "pack_int U16 v = Inr bs" "length bs = ifmt_size U16"
    "unpack_int U16 bs 0 = Inr i"
    by blast
  have "encode_value rt v (Some UINT16) = Inr bs"
    using b(2) by (simp add: encode_value_def encoders_def type_ids encode_uint16_def)
  moreover have "decode_value bs UINT16 0 = Inr (v, 2)"
    using b(1,4) by (simp add: decode_value_def decoders_def type_ids decode_uint16_def)
  ultimately show ?thesis using b(3) by simp
qed

lemma round_trip_int32:
  assumes "int_in I32 v"
  shows "\<exists>bs. encode_value rt v (Some INT32) = Inr bs \<and> length bs = 4
           \<and> decode_value bs INT32 0 = Inr (v, 4)"
proof -
  from int_round_trip [OF assms] obtain bs i where
    b: "v = PInt i" "pack_int I32 v = Inr bs" "length bs = ifmt_size I32"
    "unpack_int I32 bs 0 = Inr i"
    by blast
  have "encode_value rt v (Some INT32) = Inr bs"
    using b(2) by (simp add: encode_value_def encoders_def type_ids encode_int32_def)
  moreover have "decode_value bs INT32 0 = Inr (v, 4)"
    using b(1,4) by (simp add: decode_value_def decoders_def type_ids decode_int32_def)
  ultimately show ?thesis using b(3) by simp
qed

lemma round_trip_uint32:
  assumes "int_in U32 v"
  shows "\<exists>bs. encode_value rt v (Some UINT32) = Inr bs \<and> length bs = 4
           \<and> decode_value bs UINT32 0 = Inr (v, 4)"
proof -
  from int_round_trip [OF assms] obtain bs i where
    b: "v = PInt i" "pack_int U32 v = Inr bs" "length bs = ifmt_size U32"
    "unpack_int U32 bs 0 = Inr i"
    by blast
  have "encode_value rt v (Some UINT32) = Inr bs"
    using b(2) by (simp add: encode_value_def encoders_def type_ids encode_uint32_def)
  moreover have "decode_value bs UINT32 0 = Inr (v, 4)"
    using b(1,4) by (simp add: decode_value_def decoders_def type_ids decode_uint32_def)
  ultimately show ?thesis using b(3) by simp
qed

lemma round_trip_int64:
  assumes "int_in I64 v"
  shows "\<exists>bs. encode_value rt v (Some INT64) = Inr bs \<and> length bs = 8
           \<and> decode_value bs INT64 0 = Inr (v, 8)"
proof -
  from int_round_trip [OF assms] obtain bs i where
    b: "v = PInt i" "pack_int I64 v = Inr bs" "length bs = ifmt_size I64"
    "unpack_int I64 bs 0 = Inr i"
    by blast
  have "encode_value rt v (Some INT64) = Inr bs"
    using b(2) by (simp add: encode_value_def encoders_def type_ids encode_int64_def)
  moreover have "decode_value bs INT64 0 = Inr (v, 8)"
    using b(1,4) by (simp add: decode_value_def decoders_def type_ids decode_int64_def)
  ultimately show ?thesis using b(3) by simp
qed

lemma round_trip_uint64:
  assumes "int_in U64 v"
  shows "\<exists>bs. encode_value rt v (Some UINT64) = Inr bs \<and> length bs = 8
           \<and> decode_value bs UINT64 0 = Inr (v, 8)"
proof -
  from int_round_trip [OF assms] obtain bs i where
    b: "v = PInt i" "pack_int U64 v = Inr bs" "length bs = ifmt_size U64"
    "unpack_int U64 bs 0 = Inr i"
    by blast
  have "encode_value rt v (Some UINT64) = Inr bs"
    using b(2) by (simp add: encode_value_def encoders_def type_ids encode_uint64_def)
  moreover have "decode_value bs UINT64 0 = Inr (v, 8)"
    using b(1,4) by (simp add: decode_value_def decoders_def type_ids decode_uint64_def)
  ultimately show ?thesis using b(3) by simp
qed


lemma round_trip_datetime:
  assumes "int_in U64 v"
  shows "\<exists>bs. encode_value rt v (Some DATETIME) = Inr bs \<and> length bs = 8
           \<and> decode_value bs DATETIME 0 = Inr (v, 8)"
proof -
  from int_round_trip [OF assms] obtain bs i where
    b: "v = PInt i" "pack_int U64 v = Inr bs" "length bs = ifmt_size U64"
    "unpack_int U64 bs 0 = Inr i"
    by blast
  have "encode_value rt v (Some DATETIME) = Inr bs"
    using b(1,2) by (simp add: encode_value_def encoders_def type_ids encode_datetime_def)
  moreover have "decode_value bs DATETIME 0 = Inr (v, 8)"
    using b(1,4) by (simp add: decode_value_def decoders_def type_ids decode_datetime_def)
  ultimately show ?thesis using b(3) by simp
qed

lemma round_trip_boolean:
  "\<exists>bs. encode_value rt (PBool b) (Some BOOLEAN) = Inr bs \<and> length bs = 1
           \<and> decode_value bs BOOLEAN 0 = Inr (PBool b, 1)"
proof -
  have e: "encode_value rt (PBool b) (Some BOOLEAN) = Inr [if b then 1 else 0]"
    by (simp add: encode_value_def encoders_def type_ids encode_boolean_def pack_int_def
        ifmt_min_def ifmt_max_def)
  have d: "decode_value [if b then 1 else 0] BOOLEAN 0 = Inr (PBool b, 1)"
    by (simp add: decode_value_def decoders_def type_ids decode_boolean_def unpack_int_def)
  show ?thesis using e d by (intro exI [of _ "[if b then 1 else 0]"]) simp
qed

lemma round_trip_float:
  "\<exists>bs. encode_value rt (PFloat w) (Some FLOAT) = Inr bs \<and> length bs = 4
           \<and> decode_value bs FLOAT 0 = Inr (PFloat w, 4)"
proof -
  let ?bs = "le_bytes 4 (unat w)"
  have e: "encode_value rt (PFloat w) (Some FLOAT) = Inr ?bs"
    by (simp add: encode_value_def encoders_def type_ids encode_float_def
        del: le_bytes_numeral)
  have "unat w < 2 ^ 32" using unsigned_less [of w] by simp
  then have "le_nat ?bs = unat w" by (simp add: le_nat_le_bytes del: le_bytes_numeral)
  then have d: "decode_value ?bs FLOAT 0 = Inr (PFloat w, 4)"
    by (simp add: decode_value_def decoders_def type_ids decode_float_def unpack_float_def
        del: le_bytes_numeral)
  show ?thesis using e d by (intro exI [of _ ?bs]) simp
qed

lemma round_trip_double:
  assumes "f32_val w \<noteq> FNaN"
  shows "\<exists>bs. encode_value rt (PFloat w) (Some DOUBLE) = Inr bs \<and> length bs = 8
           \<and> decode_value bs DOUBLE 0 = Inr (PFloat w, 8)"
proof -
  let ?bs = "le_bytes 8 (f32_to_f64 w)"
  have e: "encode_value rt (PFloat w) (Some DOUBLE) = Inr ?bs"
    by (simp add: encode_value_def encoders_def type_ids encode_double_def
        del: le_bytes_numeral)
  have "f32_to_f64 w < 2 ^ 64" using assms by (rule f64_round_trip)
  then have "le_nat ?bs = f32_to_f64 w" by (simp add: le_nat_le_bytes del: le_bytes_numeral)
  then have d: "decode_value ?bs DOUBLE 0 = Inr (PFloat w, 8)"
    using f64_round_trip(1) [OF assms]
    by (simp add: decode_value_def decoders_def type_ids decode_double_def unpack_float_def
        del: le_bytes_numeral)
  show ?thesis using e d by (intro exI [of _ ?bs]) simp
qed

lemma unat_of_char: "unat (of_char c :: byte) = of_char c"
proof -
  have "unat (of_nat (of_char c) :: byte) = of_char c mod 256"
    by (simp add: unat_of_nat)
  then show ?thesis by (simp add: of_nat_of_char)
qed

lemma utf8_decode_encode:
  "utf8_valid (utf8_encode s) \<Longrightarrow> utf8_decode (utf8_encode s) = Inr s"
  by (simp add: utf8_decode_def utf8_encode_def unat_of_char comp_def)

lemma length_prefix_round_trip:
  assumes "n < 2 ^ 31"
  shows "\<exists>l. pack_int I32 (PInt (int n)) = Inr l \<and> length l = 4
           \<and> unpack_int I32 (l @ payload) 0 = Inr (int n)"
proof -
  have r: "ifmt_min I32 \<le> int n" "int n \<le> ifmt_max I32"
    using assms by (simp_all add: ifmt_min_def ifmt_max_def)
  let ?l = "le_bytes (ifmt_size I32) (nat (int n mod 2 ^ (8 * ifmt_size I32)))"
  have "pack_int I32 (PInt (int n)) = Inr ?l" using r by (rule pack_int_in_range)
  moreover have "unpack_int I32 (?l @ payload) 0 = Inr (int n)" using r by (rule unpack_pack_int)
  ultimately show ?thesis by (intro exI [of _ ?l]) simp
qed

lemma round_trip_string:
  assumes "utf8_valid (utf8_encode s)" and "length (utf8_encode s) < 2 ^ 31"
  shows "\<exists>bs. encode_value rt (PStr s) (Some STRING) = Inr bs
           \<and> length bs = 4 + length (utf8_encode s)
           \<and> decode_value bs STRING 0 = Inr (PStr s, 4 + length (utf8_encode s))"
proof -
  from length_prefix_round_trip [OF assms(2), of "utf8_encode s"] obtain l where
    l: "pack_int I32 (PInt (int (length (utf8_encode s)))) = Inr l" "length l = 4"
    "unpack_int I32 (l @ utf8_encode s) 0 = Inr (int (length (utf8_encode s)))"
    by blast
  have e: "encode_value rt (PStr s) (Some STRING) = Inr (l @ utf8_encode s)"
    using l(1) by (simp add: encode_value_def encoders_def type_ids Let_def)
  have d: "decode_value (l @ utf8_encode s) STRING 0 =
      Inr (PStr s, 4 + length (utf8_encode s))"
    using l(2,3) utf8_decode_encode [OF assms(1)]
    by (simp add: decode_value_def decoders_def type_ids decode_string_def Let_def)
  show ?thesis using e d l(2) by (intro exI [of _ "l @ utf8_encode s"]) simp
qed

lemma round_trip_bytestring:
  assumes "length b < 2 ^ 31"
  shows "\<exists>bs. encode_value rt (PBytes b) (Some BYTESTRING) = Inr bs
           \<and> length bs = 4 + length b
           \<and> decode_value bs BYTESTRING 0 = Inr (PBytes b, 4 + length b)"
proof -
  from length_prefix_round_trip [OF assms, of b] obtain l where
    l: "pack_int I32 (PInt (int (length b))) = Inr l" "length l = 4"
    "unpack_int I32 (l @ b) 0 = Inr (int (length b))"
    by blast
  have e: "encode_value rt (PBytes b) (Some BYTESTRING) = Inr (l @ b)"
    using l(1) by (simp add: encode_value_def encoders_def type_ids)
  have d: "decode_value (l @ b) BYTESTRING 0 = Inr (PBytes b, 4 + length b)"
    using l(2,3)
    by (simp add: decode_value_def decoders_def type_ids decode_bytestring_def Let_def)
  show ?thesis using e d l(2) by (intro exI [of _ "l @ b"]) simp
qed

lemma unpack_int_null: "unpack_int I32 [0xFF, 0xFF, 0xFF, 0xFF] 0 = Inr (- 1)"
  by (simp add: unpack_int_def)

lemma round_trip_null:
  "\<exists>bs. encode_value rt PNone (Some STRING) = Inr bs \<and> length bs = 4
           \<and> decode_value bs STRING 0 = Inr (PNone, 4)"
  "\<exists>bs. encode_value rt PNone (Some BYTESTRING) = Inr bs \<and> length bs = 4
           \<and> decode_value bs BYTESTRING 0 = Inr (PNone, 4)"
proof -
  have e: "encode_value rt PNone (Some STRING) = Inr [0xFF, 0xFF, 0xFF, 0xFF]"
    "encode_value rt PNone (Some BYTESTRING) = Inr [0xFF, 0xFF, 0xFF, 0xFF]"
    by (simp_all add: encode_value_def encoders_def type_ids pack_int_null)
  have d: "decode_value [0xFF, 0xFF, 0xFF, 0xFF] STRING 0 = Inr (PNone, 4)"
    "decode_value [0xFF, 0xFF, 0xFF, 0xFF] BYTESTRING 0 = Inr (PNone, 4)"
    by (simp_all add: decode_value_def decoders_def type_ids decode_string_def
        decode_bytestring_def unpack_int_null)
  show "\<exists>bs. encode_value rt PNone (Some STRING) = Inr bs \<and> length bs = 4
           \<and> decode_value bs STRING 0 = Inr (PNone, 4)"
    using e(1) d(1) by (intro exI [of _ "[0xFF, 0xFF, 0xFF, 0xFF]"]) simp
  show "\<exists>bs. encode_value rt PNone (Some BYTESTRING) = Inr bs \<and> length bs = 4
           \<and> decode_value bs BYTESTRING 0 = Inr (PNone, 4)"
    using e(2) d(2) by (intro exI [of _ "[0xFF, 0xFF, 0xFF, 0xFF]"]) simp
qed


lemma representable_type:
  assumes "representable t v"
  shows "t = BOOLEAN \<or> t = SBYTE \<or> t = BYTE \<or> t = INT16 \<or> t = UINT16 \<or> t = INT32
         \<or> t = UINT32 \<or> t = INT64 \<or> t = UINT64 \<or> t = FLOAT \<or> t = DOUBLE
         \<or> t = STRING \<or> t = DATETIME \<or> t = BYTESTRING"
  using assms unfolding representable_def by (meson)

text \<open>
  C2. For every supported scalar type \<open>t\<close> and every value \<open>v\<close> representable in \<open>t\<close>,
  encoding \<open>v\<close> at type \<open>t\<close> succeeds, and decoding the result at offset 0 returns the
  pair of \<open>v\<close> and the number of bytes encoded: the fixed width of a fixed-width type;
  for String and ByteString 4 plus the payload length, or 4 for None.
\<close>

theorem scalar_round_trip:
  assumes "representable t v"
  shows "\<exists>bs. encode_value rt v (Some t) = Inr bs \<and> length bs = encoded_width t v
           \<and> decode_value bs t 0 = Inr (v, encoded_width t v)"
proof -
  consider "t = BOOLEAN" | "t = SBYTE" | "t = BYTE" | "t = INT16" | "t = UINT16"
    | "t = INT32" | "t = UINT32" | "t = INT64" | "t = UINT64" | "t = FLOAT" | "t = DOUBLE"
    | "t = STRING" | "t = DATETIME" | "t = BYTESTRING"
    using representable_type [OF assms] by blast
  then show ?thesis
  proof cases
    case 1
    with assms obtain b where "v = PBool b"
      by (cases v) (simp_all add: representable_def)
    moreover have "encoded_width BOOLEAN v = 1" by (simp add: encoded_width_def)
    ultimately show ?thesis using round_trip_boolean [of rt b] 1 by simp
  next
    case 2
    with assms have "int_in I8 v" by (simp add: representable_def type_ids)
    moreover have "encoded_width SBYTE v = 1" by (simp add: encoded_width_def type_ids)
    ultimately show ?thesis using round_trip_sbyte [of v rt] 2 by simp
  next
    case 3
    with assms have "int_in U8 v" by (simp add: representable_def type_ids)
    moreover have "encoded_width BYTE v = 1" by (simp add: encoded_width_def type_ids)
    ultimately show ?thesis using round_trip_byte [of v rt] 3 by simp
  next
    case 4
    with assms have "int_in I16 v" by (simp add: representable_def type_ids)
    moreover have "encoded_width INT16 v = 2" by (simp add: encoded_width_def type_ids)
    ultimately show ?thesis using round_trip_int16 [of v rt] 4 by simp
  next
    case 5
    with assms have "int_in U16 v" by (simp add: representable_def type_ids)
    moreover have "encoded_width UINT16 v = 2" by (simp add: encoded_width_def type_ids)
    ultimately show ?thesis using round_trip_uint16 [of v rt] 5 by simp
  next
    case 6
    with assms have "int_in I32 v" by (simp add: representable_def type_ids)
    moreover have "encoded_width INT32 v = 4" by (simp add: encoded_width_def type_ids)
    ultimately show ?thesis using round_trip_int32 [of v rt] 6 by simp
  next
    case 7
    with assms have "int_in U32 v" by (simp add: representable_def type_ids)
    moreover have "encoded_width UINT32 v = 4" by (simp add: encoded_width_def type_ids)
    ultimately show ?thesis using round_trip_uint32 [of v rt] 7 by simp
  next
    case 8
    with assms have "int_in I64 v" by (simp add: representable_def type_ids)
    moreover have "encoded_width INT64 v = 8" by (simp add: encoded_width_def type_ids)
    ultimately show ?thesis using round_trip_int64 [of v rt] 8 by simp
  next
    case 9
    with assms have "int_in U64 v" by (simp add: representable_def type_ids)
    moreover have "encoded_width UINT64 v = 8" by (simp add: encoded_width_def type_ids)
    ultimately show ?thesis using round_trip_uint64 [of v rt] 9 by simp
  next
    case 10
    with assms obtain w where "v = PFloat w"
      by (cases v) (simp_all add: representable_def type_ids)
    moreover have "encoded_width FLOAT v = 4" by (simp add: encoded_width_def type_ids)
    ultimately show ?thesis using round_trip_float [of rt w] 10 by simp
  next
    case 11
    with assms obtain w where "v = PFloat w" "f32_val w \<noteq> FNaN"
      by (cases v) (simp_all add: representable_def type_ids)
    moreover have "encoded_width DOUBLE v = 8" by (simp add: encoded_width_def type_ids)
    ultimately show ?thesis using round_trip_double [of w rt] 11 by simp
  next
    case 12
    with assms consider "v = PNone"
      | s where "v = PStr s" "utf8_valid (utf8_encode s)" "length (utf8_encode s) < 2 ^ 31"
      by (cases v) (simp_all add: representable_def type_ids)
    then show ?thesis
    proof cases
      case 1
      moreover have "encoded_width STRING PNone = 4" by (simp add: encoded_width_def type_ids)
      ultimately show ?thesis using round_trip_null(1) [of rt] 12 by simp
    next
      case 2
      moreover have "encoded_width STRING (PStr s) = 4 + length (utf8_encode s)"
        by (simp add: encoded_width_def type_ids)
      ultimately show ?thesis using round_trip_string [of s rt] 12 by simp
    qed
  next
    case 13
    with assms have "int_in U64 v" by (simp add: representable_def type_ids)
    moreover have "encoded_width DATETIME v = 8" by (simp add: encoded_width_def type_ids)
    ultimately show ?thesis using round_trip_datetime [of v rt] 13 by simp
  next
    case 14
    with assms consider "v = PNone" | b where "v = PBytes b" "length b < 2 ^ 31"
      by (cases v) (simp_all add: representable_def type_ids)
    then show ?thesis
    proof cases
      case 1
      moreover have "encoded_width BYTESTRING PNone = 4"
        by (simp add: encoded_width_def type_ids)
      ultimately show ?thesis using round_trip_null(2) [of rt] 14 by simp
    next
      case 2
      moreover have "encoded_width BYTESTRING (PBytes b) = 4 + length b"
        by (simp add: encoded_width_def type_ids)
      ultimately show ?thesis using round_trip_bytestring [of b rt] 14 by simp
    qed
  qed
qed


lemma f32_to_f64_25_5: "f32_to_f64 0x41CC0000 = 0x4039800000000000"
proof -
  have v: "f32_val 0x41CC0000 = FFin False (2 ^ 23 + 4980736) (int 131 - 150)"
    by (simp add: f32_val_def float_decode_def Let_def)
  show ?thesis
    unfolding f32_to_f64_def v using widen_normal [of 131 4980736 False] by simp
qed

theorem scalar_round_trip_witness:
  "representable INT16 (PInt (- 2))
   \<and> encode_value rt0 (PInt (- 2)) (Some INT16) = Inr [0xFE, 0xFF]
   \<and> decode_value [0xFE, 0xFF] INT16 0 = Inr (PInt (- 2), 2)
   \<and> representable STRING (PStr ''ESP32'')
   \<and> encode_value rt0 (PStr ''ESP32'') (Some STRING) =
       Inr [5, 0, 0, 0, 0x45, 0x53, 0x50, 0x33, 0x32]
   \<and> decode_value [5, 0, 0, 0, 0x45, 0x53, 0x50, 0x33, 0x32] STRING 0 =
       Inr (PStr ''ESP32'', 9)
   \<and> representable DOUBLE (PFloat 0x41CC0000)
   \<and> encode_value rt0 (PFloat 0x41CC0000) (Some DOUBLE) =
       Inr [0, 0, 0, 0, 0, 0x80, 0x39, 0x40]
   \<and> decode_value [0, 0, 0, 0, 0, 0x80, 0x39, 0x40] DOUBLE 0 = Inr (PFloat 0x41CC0000, 8)"
proof -
  have r1: "representable INT16 (PInt (- 2))"
    by (simp add: representable_def type_ids int_in_def ifmt_min_def ifmt_max_def)
  have e1: "encode_value rt0 (PInt (- 2)) (Some INT16) = Inr [0xFE, 0xFF]"
    by (simp add: encode_value_def encoders_def type_ids encode_int16_def pack_int_def
        ifmt_min_def ifmt_max_def)
  have d1: "decode_value [0xFE, 0xFF] INT16 0 = Inr (PInt (- 2), 2)"
    using scalar_round_trip [OF r1, of rt0] e1 by (simp add: encoded_width_def type_ids)
  have r2: "representable STRING (PStr ''ESP32'')"
    by (simp add: representable_def type_ids utf8_encode_ESP32)
  have e2: "encode_value rt0 (PStr ''ESP32'') (Some STRING) =
      Inr [5, 0, 0, 0, 0x45, 0x53, 0x50, 0x33, 0x32]"
    by (simp add: encode_value_def encoders_def type_ids utf8_encode_ESP32 pack_i32_5)
  have d2: "decode_value [5, 0, 0, 0, 0x45, 0x53, 0x50, 0x33, 0x32] STRING 0 =
      Inr (PStr ''ESP32'', 9)"
    using scalar_round_trip [OF r2, of rt0] e2
    by (simp add: encoded_width_def type_ids utf8_encode_ESP32)
  have r3: "representable DOUBLE (PFloat 0x41CC0000)"
    by (simp add: representable_def type_ids f32_val_25_5)
  have e3: "encode_value rt0 (PFloat 0x41CC0000) (Some DOUBLE) =
      Inr [0, 0, 0, 0, 0, 0x80, 0x39, 0x40]"
    by (simp add: encode_value_def encoders_def type_ids encode_double_def f32_to_f64_25_5)
  have d3: "decode_value [0, 0, 0, 0, 0, 0x80, 0x39, 0x40] DOUBLE 0 =
      Inr (PFloat 0x41CC0000, 8)"
    using scalar_round_trip [OF r3, of rt0] e3 by (simp add: encoded_width_def type_ids)
  show ?thesis using r1 e1 d1 r2 e2 d2 r3 e3 d3 by simp
qed

end
